theory Spec2Isabelle
  imports Complex_Main "HOL-Library.Log_Nat"
begin

section \<open>Decimal arithmetic\<close>

text \<open>
  The money and share quantities of the program are Python \<^verbatim>\<open>decimal.Decimal\<close> values: a
  finite number, an infinity of either sign, the quiet NaN or the signalling NaN. A finite
  Decimal is modelled by the rational number it denotes, so \<^verbatim>\<open>Decimal("1600.00")\<close> and
  \<^verbatim>\<open>Decimal("1600")\<close> are the same value, as they are under Python's \<^verbatim>\<open>==\<close>; the sign
  of a zero is not kept (it shows only in the sign of an infinity divided by zero, a
  division the program never makes). The Boolean of an infinity says that it is negative.

  The arithmetic is that of the default context, which the program never changes:
  precision 28, rounding half to even, \<open>Emax = 999999\<close>, \<open>Emin = -999999\<close>, with the traps
  \<^verbatim>\<open>InvalidOperation\<close>, \<^verbatim>\<open>DivisionByZero\<close> and \<^verbatim>\<open>Overflow\<close> set, so that these three
  conditions raise. Underflow is not trapped: a result below \<open>Emin\<close> is rounded to a
  multiple of \<open>10 ^ Etiny\<close>.
\<close>

datatype decimal = Finite rat | Infinity bool | NaN | sNaN

datatype exn =
    ValueError string
  | ValidationError
  | DivisionByZero
  | InvalidOperation
  | Overflow

definition prec :: nat where
  "prec = 28"

definition Emax :: int where
  "Emax = 999999"

definition Emin :: int where
  "Emin = - 999999"

definition Etiny :: int where
  "Etiny = Emin - (int prec - 1)"

text \<open>The adjusted exponent of a non-zero number: the exponent of its leading digit.\<close>

definition adjusted :: "rat \<Rightarrow> int" where
  "adjusted q =
     (let (n, d) = quotient_of \<bar>q\<bar>;
          k = int (floorlog 10 (nat n)) - int (floorlog 10 (nat d))
      in if 10 powi k \<le> \<bar>q\<bar> then k else k - 1)"

definition round_half_even :: "rat \<Rightarrow> int" where
  "round_half_even m =
     (let f = \<lfloor>m\<rfloor>; r = m - of_int f
      in if r < 1 / 2 then f
         else if 1 / 2 < r then f + 1
         else if even f then f else f + 1)"

text \<open>Rounding a number to a multiple of \<open>10 ^ e\<close>.\<close>

definition rescale :: "rat \<Rightarrow> int \<Rightarrow> rat" where
  "rescale q e = of_int (round_half_even (q / 10 powi e)) * 10 powi e"

text \<open>
  The exact result of an operation on finite operands is rounded to the precision, or to
  \<open>Etiny\<close> when it is that small, and raises \<^verbatim>\<open>Overflow\<close> when the rounded number is above
  \<open>Emax\<close>.
\<close>

definition dec_fix :: "rat \<Rightarrow> exn + decimal" where
  "dec_fix q =
     (if q = 0 then Inr (Finite 0)
      else let r = rescale q (max (adjusted q - (int prec - 1)) Etiny)
           in if r \<noteq> 0 \<and> Emax < adjusted r then Inl Overflow else Inr (Finite r))"

fun dec_add :: "decimal \<Rightarrow> decimal \<Rightarrow> exn + decimal" where
  "dec_add sNaN y = Inl InvalidOperation"
| "dec_add x sNaN = Inl InvalidOperation"
| "dec_add NaN y = Inr NaN"
| "dec_add x NaN = Inr NaN"
| "dec_add (Infinity s) (Infinity t) =
     (if s = t then Inr (Infinity s) else Inl InvalidOperation)"
| "dec_add (Infinity s) (Finite b) = Inr (Infinity s)"
| "dec_add (Finite a) (Infinity t) = Inr (Infinity t)"
| "dec_add (Finite a) (Finite b) = dec_fix (a + b)"

fun dec_sub :: "decimal \<Rightarrow> decimal \<Rightarrow> exn + decimal" where
  "dec_sub sNaN y = Inl InvalidOperation"
| "dec_sub x sNaN = Inl InvalidOperation"
| "dec_sub NaN y = Inr NaN"
| "dec_sub x NaN = Inr NaN"
| "dec_sub (Infinity s) (Infinity t) =
     (if s = t then Inl InvalidOperation else Inr (Infinity s))"
| "dec_sub (Infinity s) (Finite b) = Inr (Infinity s)"
| "dec_sub (Finite a) (Infinity t) = Inr (Infinity (\<not> t))"
| "dec_sub (Finite a) (Finite b) = dec_fix (a - b)"

fun dec_mul :: "decimal \<Rightarrow> decimal \<Rightarrow> exn + decimal" where
  "dec_mul sNaN y = Inl InvalidOperation"
| "dec_mul x sNaN = Inl InvalidOperation"
| "dec_mul NaN y = Inr NaN"
| "dec_mul x NaN = Inr NaN"
| "dec_mul (Infinity s) (Infinity t) = Inr (Infinity (s \<noteq> t))"
| "dec_mul (Infinity s) (Finite b) =
     (if b = 0 then Inl InvalidOperation else Inr (Infinity (s \<noteq> (b < 0))))"
| "dec_mul (Finite a) (Infinity t) =
     (if a = 0 then Inl InvalidOperation else Inr (Infinity ((a < 0) \<noteq> t)))"
| "dec_mul (Finite a) (Finite b) = dec_fix (a * b)"

fun dec_div :: "decimal \<Rightarrow> decimal \<Rightarrow> exn + decimal" where
  "dec_div sNaN y = Inl InvalidOperation"
| "dec_div x sNaN = Inl InvalidOperation"
| "dec_div NaN y = Inr NaN"
| "dec_div x NaN = Inr NaN"
| "dec_div (Infinity s) (Infinity t) = Inl InvalidOperation"
| "dec_div (Infinity s) (Finite b) = Inr (Infinity (s \<noteq> (b < 0)))"
| "dec_div (Finite a) (Infinity t) = Inr (Finite 0)"
| "dec_div (Finite a) (Finite b) =
     (if b = 0 then Inl (if a = 0 then InvalidOperation else DivisionByZero)
      else dec_fix (a / b))"

text \<open>The comparison \<^verbatim>\<open>x > 0\<close>; an ordering comparison with a NaN raises.\<close>

fun dec_gt_zero :: "decimal \<Rightarrow> exn + bool" where
  "dec_gt_zero sNaN = Inl InvalidOperation"
| "dec_gt_zero NaN = Inl InvalidOperation"
| "dec_gt_zero (Infinity s) = Inr (\<not> s)"
| "dec_gt_zero (Finite a) = Inr (0 < a)"

fun is_finite :: "decimal \<Rightarrow> bool" where
  "is_finite (Finite a) = True"
| "is_finite (Infinity s) = False"
| "is_finite NaN = False"
| "is_finite sNaN = False"

section \<open>The models (models.py)\<close>

text \<open>
  A class is a record. Isabelle record fields share one name space, so each field name
  carries a prefix for its class: \<open>u_\<close> for User, \<open>h_\<close> for StockHolding, \<open>v_\<close> for
  HoldingWithCurrentPrice and \<open>s_\<close> for PortfolioSummary. A \<^verbatim>\<open>datetime\<close> is a point on
  an integer time line; Python's \<^verbatim>\<open>int\<close> is \<^typ>\<open>int\<close>. A \<^verbatim>\<open>str\<close> is the list of the
  bytes of its UTF-8 encoding.

  The two table classes (\<^verbatim>\<open>table=True\<close>) are built without validation, so a holding can
  have any Decimal as its shares and purchase price, also a negative or a special one. The
  two schema classes (\<^verbatim>\<open>table=False\<close>) validate their fields when built: a Decimal field
  must be finite, or the constructor raises \<^verbatim>\<open>ValidationError\<close>.
\<close>

type_synonym datetime = int

record user =
  u_id :: "int option"
  u_name :: string
  u_email :: string
  u_is_active :: bool
  u_created_at :: datetime

record stock_holding =
  h_id :: "int option"
  h_ticker :: string
  h_shares :: decimal
  h_purchase_price :: decimal
  h_user_id :: int
  h_created_at :: datetime
  h_updated_at :: datetime

text \<open>The property \<^verbatim>\<open>total_purchase_value\<close> of StockHolding.\<close>

definition h_total_purchase_value :: "stock_holding \<Rightarrow> exn + decimal" where
  "h_total_purchase_value self = dec_mul (h_shares self) (h_purchase_price self)"

record portfolio_summary =
  s_total_current_value :: decimal
  s_total_purchase_value :: decimal
  s_total_gain_loss :: decimal
  s_total_gain_loss_percent :: decimal
  s_holdings_count :: int

text \<open>The validating constructor of PortfolioSummary.\<close>

definition PortfolioSummary :: "portfolio_summary \<Rightarrow> exn + portfolio_summary" where
  "PortfolioSummary s =
     (if is_finite (s_total_current_value s) \<and> is_finite (s_total_purchase_value s)
         \<and> is_finite (s_total_gain_loss s) \<and> is_finite (s_total_gain_loss_percent s)
      then Inr s else Inl ValidationError)"

record holding_with_current_price =
  v_id :: int
  v_ticker :: string
  v_shares :: decimal
  v_purchase_price :: decimal
  v_current_price :: decimal
  v_current_value :: decimal
  v_gain_loss :: decimal
  v_gain_loss_percent :: decimal
  v_created_at :: datetime
  v_updated_at :: datetime

text \<open>The validating constructor of HoldingWithCurrentPrice.\<close>

definition HoldingWithCurrentPrice ::
    "holding_with_current_price \<Rightarrow> exn + holding_with_current_price" where
  "HoldingWithCurrentPrice v =
     (if is_finite (v_shares v) \<and> is_finite (v_purchase_price v)
         \<and> is_finite (v_current_price v) \<and> is_finite (v_current_value v)
         \<and> is_finite (v_gain_loss v) \<and> is_finite (v_gain_loss_percent v)
      then Inr v else Inl ValidationError)"

text \<open>
  \<^verbatim>\<open>HoldingWithCurrentPrice.from_holding\<close>. Every \<^verbatim>\<open>raise\<close>, of the function itself, of a
  Decimal operation or of the constructor, is a result \<open>Inl\<close> and leaves the function.
\<close>

definition from_holding :: "stock_holding \<Rightarrow> decimal \<Rightarrow> exn + holding_with_current_price" where
  "from_holding holding current_price =
     (case h_id holding of
        None \<Rightarrow> Inl (ValueError ''StockHolding ID cannot be None'')
      | Some i \<Rightarrow>
     (case dec_mul (h_shares holding) current_price of
        Inl e \<Rightarrow> Inl e
      | Inr current_value \<Rightarrow>
     (case h_total_purchase_value holding of
        Inl e \<Rightarrow> Inl e
      | Inr purchase_value \<Rightarrow>
     (case dec_sub current_value purchase_value of
        Inl e \<Rightarrow> Inl e
      | Inr gain_loss \<Rightarrow>
     (case (case dec_gt_zero purchase_value of
              Inl e \<Rightarrow> Inl e
            | Inr True \<Rightarrow>
                (case dec_div gain_loss purchase_value of
                   Inl e \<Rightarrow> Inl e
                 | Inr q \<Rightarrow> dec_mul q (Finite 100))
            | Inr False \<Rightarrow> Inr (Finite 0)) of
        Inl e \<Rightarrow> Inl e
      | Inr gain_loss_percent \<Rightarrow>
          HoldingWithCurrentPrice
            \<lparr>v_id = i,
             v_ticker = h_ticker holding,
             v_shares = h_shares holding,
             v_purchase_price = h_purchase_price holding,
             v_current_price = current_price,
             v_current_value = current_value,
             v_gain_loss = gain_loss,
             v_gain_loss_percent = gain_loss_percent,
             v_created_at = h_created_at holding,
             v_updated_at = h_updated_at holding\<rparr>)))))"

section \<open>The quote provider\<close>

text \<open>
  The market-data provider is outside the program. One call
  \<^verbatim>\<open>yf.Ticker(t).history(period="1d")\<close> either raises or returns a frame, of which the
  program reads the column of closing prices; an exception of any step of the \<^verbatim>\<open>try\<close>
  block, such as a frame without that column, is the case that raises. The provider may
  answer differently at every call, so it has a state of its own, of type \<open>'w\<close>, threaded
  through every lookup.

  A closing price is a double: a finite number, given by its value, an infinity (the
  Boolean says that it is negative) or NaN.
\<close>

datatype float64 = Float rat | Float_Infinity bool | Float_NaN

datatype history = Raises | Frame "float64 list"

type_synonym 'w yfinance = "string \<Rightarrow> 'w \<Rightarrow> history \<times> 'w"

text \<open>
  The conversion \<^verbatim>\<open>Decimal(str(round(latest_price, 2)))\<close>, modelled from the documentation
  of the three library functions: \<^verbatim>\<open>round\<close> gives the nearest number with two decimal
  places, a tie going to the even neighbour, and keeps an infinity and NaN; \<^verbatim>\<open>str\<close> writes
  the shortest numeral that reads back as the same double, \<^verbatim>\<open>inf\<close> or \<^verbatim>\<open>nan\<close>; \<^verbatim>\<open>Decimal\<close>
  reads the numeral exactly, with no rounding and no trap. None of them raises. A close is
  taken as the number it denotes: the errors of binary floating point in the scaling by
  100, of which the documentation of \<^verbatim>\<open>round\<close> warns, are outside the model.
\<close>

definition round2 :: "rat \<Rightarrow> rat" where
  "round2 x = of_int (round_half_even (x * 100)) / 100"

fun decimal_of_close :: "float64 \<Rightarrow> decimal" where
  "decimal_of_close (Float x) = Finite (round2 x)"
| "decimal_of_close (Float_Infinity s) = Infinity s"
| "decimal_of_close Float_NaN = NaN"

text \<open>
  \<^verbatim>\<open>PortfolioService.get_stock_price\<close>: every exception becomes \<open>None\<close>. The method
  \<^verbatim>\<open>str.upper\<close> of the library is the parameter \<open>upper\<close>.
\<close>

definition get_stock_price ::
    "(string \<Rightarrow> string) \<Rightarrow> 'w yfinance \<Rightarrow> string \<Rightarrow> 'w \<Rightarrow> decimal option \<times> 'w" where
  "get_stock_price upper yf ticker w =
     (case yf (upper ticker) w of
        (Raises, w') \<Rightarrow> (None, w')
      | (Frame closes, w') \<Rightarrow>
          (if closes = [] then (None, w')
           else (Some (decimal_of_close (last closes)), w')))"

section \<open>The database session\<close>

text \<open>
  Modelled from the spec: \<^verbatim>\<open>app.database\<close> (\<^verbatim>\<open>get_session\<close> and the engine behind it)
  is not among the sources. The store is the two tables of the spec's persistence
  boundary, \<open>users\<close> and \<open>stock_holdings\<close>, each a list of rows in the order of the
  backing store, with one identity sequence per table. What the engine may enforce on a
  row beyond its key (column widths, the foreign key of a holding, the uniqueness of an
  email) is outside the model.
\<close>

record db =
  users :: "user list"
  stock_holdings :: "stock_holding list"
  users_id_seq :: int
  stock_holdings_id_seq :: int

text \<open>
  Modelled from the spec: the session of \<^verbatim>\<open>app.database\<close> is not among the sources.
  Adding a user that has no identity yet, committing and refreshing it "assigns identity":
  the row gets the next value of the sequence and is appended.
\<close>

definition session_add_user :: "user \<Rightarrow> db \<Rightarrow> user \<times> db" where
  "session_add_user u d =
     (let i = users_id_seq d + 1; row = u\<lparr>u_id := Some i\<rparr>
      in (row, d\<lparr>users := users d @ [row], users_id_seq := i\<rparr>))"

text \<open>
  Modelled from the spec: the session of \<^verbatim>\<open>app.database\<close> is not among the sources.
  Adding a holding that has no identity yet, committing and refreshing it "assigns
  identity" in the same way.
\<close>

definition session_add_holding :: "stock_holding \<Rightarrow> db \<Rightarrow> stock_holding \<times> db" where
  "session_add_holding h d =
     (let i = stock_holdings_id_seq d + 1; row = h\<lparr>h_id := Some i\<rparr>
      in (row, d\<lparr>stock_holdings := stock_holdings d @ [row], stock_holdings_id_seq := i\<rparr>))"

text \<open>
  Modelled from the spec: the session of \<^verbatim>\<open>app.database\<close> is not among the sources.
  \<^verbatim>\<open>session.get(StockHolding, holding_id)\<close> is the row with that primary key, or \<open>None\<close>.
\<close>

definition session_get_holding :: "int \<Rightarrow> db \<Rightarrow> stock_holding option" where
  "session_get_holding holding_id d = find (\<lambda>h. h_id h = Some holding_id) (stock_holdings d)"

text \<open>
  Modelled from the spec: the session of \<^verbatim>\<open>app.database\<close> is not among the sources.
  Deleting a loaded holding and committing "removes the holding": the rows with its
  primary key leave the table.
\<close>

definition session_delete_holding :: "stock_holding \<Rightarrow> db \<Rightarrow> db" where
  "session_delete_holding h d =
     d\<lparr>stock_holdings := filter (\<lambda>r. h_id r \<noteq> h_id h) (stock_holdings d)\<rparr>"

text \<open>
  Modelled from the spec: the session of \<^verbatim>\<open>app.database\<close> is not among the sources.
  Executing \<^verbatim>\<open>select(StockHolding).where(...)\<close> yields the holdings that satisfy the
  condition, in the order of the table.
\<close>

definition exec_select_holdings :: "(stock_holding \<Rightarrow> bool) \<Rightarrow> db \<Rightarrow> stock_holding list" where
  "exec_select_holdings cond d = filter cond (stock_holdings d)"

text \<open>
  Modelled from the spec: the session of \<^verbatim>\<open>app.database\<close> is not among the sources.
  Executing \<^verbatim>\<open>select(User).where(...)\<close> yields the users that satisfy the condition, in
  the order of the table.
\<close>

definition exec_select_users :: "(user \<Rightarrow> bool) \<Rightarrow> db \<Rightarrow> user list" where
  "exec_select_users cond d = filter cond (users d)"

text \<open>
  Modelled from the spec: the session of \<^verbatim>\<open>app.database\<close> is not among the sources.
  \<^verbatim>\<open>.first()\<close> on a result is its first row, or \<open>None\<close> when it has none.
\<close>

definition first :: "'a list \<Rightarrow> 'a option" where
  "first rows = (case rows of [] \<Rightarrow> None | r # _ \<Rightarrow> Some r)"

text \<open>A key has been issued by a sequence when it is assigned and at most the last value.\<close>

fun issued :: "int option \<Rightarrow> int \<Rightarrow> bool" where
  "issued None n = False"
| "issued (Some i) n = (i \<le> n)"

text \<open>
  The well-formed stores: the rows of a table have their primary key, the keys of a table
  are distinct, and the sequence of a table has issued every key in it. The empty store
  is well formed and every operation of the service keeps a store so.
\<close>

definition db_ok :: "db \<Rightarrow> bool" where
  "db_ok d \<longleftrightarrow>
     list_all (\<lambda>h. issued (h_id h) (stock_holdings_id_seq d)) (stock_holdings d) \<and>
     distinct (map h_id (stock_holdings d)) \<and>
     list_all (\<lambda>u. issued (u_id u) (users_id_seq d)) (users d) \<and>
     distinct (map u_id (users d))"

definition empty_db :: db where
  "empty_db = \<lparr>users = [], stock_holdings = [], users_id_seq = 0, stock_holdings_id_seq = 0\<rparr>"

section \<open>The service (portfolio\_service.py)\<close>

text \<open>
  The static methods of \<^verbatim>\<open>PortfolioService\<close>. Each takes the store and, where it
  looks up quotes, the provider with its state, and returns them with its result.
\<close>

definition get_user_holdings :: "int \<Rightarrow> db \<Rightarrow> stock_holding list" where
  "get_user_holdings user_id d = exec_select_holdings (\<lambda>h. h_user_id h = user_id) d"

text \<open>
  The loop of \<^verbatim>\<open>get_holdings_with_prices\<close> over the holdings, with the list built so far.
  An exception of \<^verbatim>\<open>from_holding\<close> leaves the loop and the function.
\<close>

fun price_holdings ::
    "(string \<Rightarrow> string) \<Rightarrow> 'w yfinance \<Rightarrow> stock_holding list \<Rightarrow>
     holding_with_current_price list \<Rightarrow> 'w \<Rightarrow> (exn + holding_with_current_price list) \<times> 'w" where
  "price_holdings upper yf [] holdings_with_prices w = (Inr holdings_with_prices, w)"
| "price_holdings upper yf (holding # rest) holdings_with_prices w =
     (case get_stock_price upper yf (h_ticker holding) w of
        (None, w') \<Rightarrow> price_holdings upper yf rest holdings_with_prices w'
      | (Some current_price, w') \<Rightarrow>
          (case from_holding holding current_price of
             Inl e \<Rightarrow> (Inl e, w')
           | Inr v \<Rightarrow> price_holdings upper yf rest (holdings_with_prices @ [v]) w'))"

definition get_holdings_with_prices ::
    "(string \<Rightarrow> string) \<Rightarrow> 'w yfinance \<Rightarrow> int \<Rightarrow> db \<Rightarrow> 'w \<Rightarrow>
     (exn + holding_with_current_price list) \<times> 'w" where
  "get_holdings_with_prices upper yf user_id d w =
     price_holdings upper yf (get_user_holdings user_id d) [] w"

text \<open>The summing loop of \<^verbatim>\<open>get_portfolio_summary\<close>, with the two running totals.\<close>

fun sum_holdings ::
    "holding_with_current_price list \<Rightarrow> decimal \<Rightarrow> decimal \<Rightarrow> exn + decimal \<times> decimal" where
  "sum_holdings [] total_current_value total_purchase_value =
     Inr (total_current_value, total_purchase_value)"
| "sum_holdings (holding # rest) total_current_value total_purchase_value =
     (case dec_add total_current_value (v_current_value holding) of
        Inl e \<Rightarrow> Inl e
      | Inr total_current_value' \<Rightarrow>
     (case dec_mul (v_shares holding) (v_purchase_price holding) of
        Inl e \<Rightarrow> Inl e
      | Inr purchase_value \<Rightarrow>
     (case dec_add total_purchase_value purchase_value of
        Inl e \<Rightarrow> Inl e
      | Inr total_purchase_value' \<Rightarrow>
          sum_holdings rest total_current_value' total_purchase_value')))"

definition get_portfolio_summary ::
    "(string \<Rightarrow> string) \<Rightarrow> 'w yfinance \<Rightarrow> int \<Rightarrow> db \<Rightarrow> 'w \<Rightarrow>
     (exn + portfolio_summary) \<times> 'w" where
  "get_portfolio_summary upper yf user_id d w =
     (case get_holdings_with_prices upper yf user_id d w of
        (Inl e, w') \<Rightarrow> (Inl e, w')
      | (Inr holdings_with_prices, w') \<Rightarrow>
     (case sum_holdings holdings_with_prices (Finite 0) (Finite 0) of
        Inl e \<Rightarrow> (Inl e, w')
      | Inr (total_current_value, total_purchase_value) \<Rightarrow>
     (case dec_sub total_current_value total_purchase_value of
        Inl e \<Rightarrow> (Inl e, w')
      | Inr total_gain_loss \<Rightarrow>
     (case (case dec_gt_zero total_purchase_value of
              Inl e \<Rightarrow> Inl e
            | Inr True \<Rightarrow>
                (case dec_div total_gain_loss total_purchase_value of
                   Inl e \<Rightarrow> Inl e
                 | Inr q \<Rightarrow> dec_mul q (Finite 100))
            | Inr False \<Rightarrow> Inr (Finite 0)) of
        Inl e \<Rightarrow> (Inl e, w')
      | Inr total_gain_loss_percent \<Rightarrow>
          (PortfolioSummary
             \<lparr>s_total_current_value = total_current_value,
              s_total_purchase_value = total_purchase_value,
              s_total_gain_loss = total_gain_loss,
              s_total_gain_loss_percent = total_gain_loss_percent,
              s_holdings_count = int (length holdings_with_prices)\<rparr>, w')))))"

text \<open>
  \<^verbatim>\<open>add_holding\<close>. The two timestamps of the new holding are the readings of the clock
  that its default factories take, given as \<open>created\<close> and \<open>updated\<close>.
\<close>

definition add_holding ::
    "(string \<Rightarrow> string) \<Rightarrow> 'w yfinance \<Rightarrow> datetime \<Rightarrow> datetime \<Rightarrow>
     int \<Rightarrow> string \<Rightarrow> decimal \<Rightarrow> decimal \<Rightarrow> db \<Rightarrow> 'w \<Rightarrow> stock_holding option \<times> db \<times> 'w" where
  "add_holding upper yf created updated user_id ticker shares purchase_price d w =
     (case get_stock_price upper yf ticker w of
        (None, w') \<Rightarrow> (None, d, w')
      | (Some _, w') \<Rightarrow>
          (let holding = \<lparr>h_id = None,
                          h_ticker = upper ticker,
                          h_shares = shares,
                          h_purchase_price = purchase_price,
                          h_user_id = user_id,
                          h_created_at = created,
                          h_updated_at = updated\<rparr>;
               (holding', d') = session_add_holding holding d
           in (Some holding', d', w')))"

text \<open>\<^verbatim>\<open>delete_holding\<close>: the holding is looked up by its key alone.\<close>

definition delete_holding :: "int \<Rightarrow> db \<Rightarrow> bool \<times> db" where
  "delete_holding holding_id d =
     (case session_get_holding holding_id d of
        None \<Rightarrow> (False, d)
      | Some holding \<Rightarrow> (True, session_delete_holding holding d))"

text \<open>\<^verbatim>\<open>get_or_create_default_user\<close>; \<open>now\<close> is the clock reading of a new user.\<close>

definition get_or_create_default_user :: "datetime \<Rightarrow> db \<Rightarrow> user \<times> db" where
  "get_or_create_default_user now d =
     (case first (exec_select_users (\<lambda>u. u_email u = ''user@portfolio.com'') d) of
        None \<Rightarrow>
          session_add_user
            \<lparr>u_id = None,
             u_name = ''Portfolio User'',
             u_email = ''user@portfolio.com'',
             u_is_active = True,
             u_created_at = now\<rparr> d
      | Some user \<Rightarrow> (user, d))"

section \<open>The quotes of a valuation\<close>

text \<open>
  What the spec says of a valuation, to compare the loops of the service with. The sum of
  a list of Decimal values is taken from \<^verbatim>\<open>Decimal("0")\<close>, left to right, and raises when
  an addition does.
\<close>

fun dec_sum_from :: "decimal \<Rightarrow> decimal list \<Rightarrow> exn + decimal" where
  "dec_sum_from acc [] = Inr acc"
| "dec_sum_from acc (x # xs) =
     (case dec_add acc x of Inl e \<Rightarrow> Inl e | Inr acc' \<Rightarrow> dec_sum_from acc' xs)"

definition dec_sum :: "decimal list \<Rightarrow> exn + decimal" where
  "dec_sum xs = dec_sum_from (Finite 0) xs"

text \<open>
  The quote looked up for each holding of a list, in order, each lookup on the provider
  state that the one before it left.
\<close>

fun quotes ::
    "(string \<Rightarrow> string) \<Rightarrow> 'w yfinance \<Rightarrow> stock_holding list \<Rightarrow> 'w \<Rightarrow>
     (stock_holding \<times> decimal option) list" where
  "quotes upper yf [] w = []"
| "quotes upper yf (h # hs) w =
     (case get_stock_price upper yf (h_ticker h) w of
        (r, w') \<Rightarrow> (h, r) # quotes upper yf hs w')"

text \<open>The holdings whose quote lookup succeeded, each with its price.\<close>

fun priced :: "(stock_holding \<times> decimal option) list \<Rightarrow> (stock_holding \<times> decimal) list" where
  "priced [] = []"
| "priced ((h, None) # qs) = priced qs"
| "priced ((h, Some p) # qs) = (h, p) # priced qs"

section \<open>Values of moderate size\<close>

text \<open>
  A number is of moderate size when it is zero or its magnitude is between \<open>10 ^ -200000\<close>
  and \<open>10 ^ 200000\<close>: the products, sums, differences and ratios that a valuation takes
  of such numbers stay within the exponent range of the context.
\<close>

definition money_exp :: int where
  "money_exp = 200000"

definition moderate :: "rat \<Rightarrow> bool" where
  "moderate x \<longleftrightarrow> x = 0 \<or> (10 powi (- money_exp) \<le> \<bar>x\<bar> \<and> \<bar>x\<bar> < 10 powi money_exp)"

text \<open>A Decimal that is a finite number of moderate size and not negative.\<close>

fun nonneg_moderate :: "decimal \<Rightarrow> bool" where
  "nonneg_moderate (Finite a) = (0 \<le> a \<and> moderate a)"
| "nonneg_moderate (Infinity s) = False"
| "nonneg_moderate NaN = False"
| "nonneg_moderate sNaN = False"

text \<open>A holding whose shares and purchase price are such numbers.\<close>

definition holding_in_range :: "stock_holding \<Rightarrow> bool" where
  "holding_in_range h \<longleftrightarrow> nonneg_moderate (h_shares h) \<and> nonneg_moderate (h_purchase_price h)"

text \<open>The result of a quote lookup that is absent or a finite price of moderate size.\<close>

fun moderate_quote :: "decimal option \<Rightarrow> bool" where
  "moderate_quote None = True"
| "moderate_quote (Some (Finite c)) = moderate c"
| "moderate_quote (Some (Infinity s)) = False"
| "moderate_quote (Some NaN) = False"
| "moderate_quote (Some sNaN) = False"

text \<open>A finite Decimal of magnitude at most \<open>10 ^ h\<close>.\<close>

fun bounded_by :: "int \<Rightarrow> decimal \<Rightarrow> bool" where
  "bounded_by h (Finite x) = (\<bar>x\<bar> \<le> 10 powi h)"
| "bounded_by h (Infinity s) = False"
| "bounded_by h NaN = False"
| "bounded_by h sNaN = False"

text \<open>The view of a holding in range at a price of moderate size.\<close>

definition view_in_range :: "holding_with_current_price \<Rightarrow> bool" where
  "view_in_range v \<longleftrightarrow>
     nonneg_moderate (v_shares v) \<and> nonneg_moderate (v_purchase_price v)
     \<and> bounded_by (2 * money_exp) (v_current_value v)"

section \<open>Examples\<close>

text \<open>
  An instance of \<open>upper\<close> for the examples: it maps the letters a to z to A to Z and keeps
  every other byte, as \<^verbatim>\<open>str.upper\<close> does on an ASCII string.
\<close>

definition ascii_upper_char :: "char \<Rightarrow> char" where
  "ascii_upper_char c =
     (let n = (of_char c :: nat)
      in if 97 \<le> n \<and> n \<le> 122 then char_of (n - 32) else c)"

definition ascii_upper :: "string \<Rightarrow> string" where
  "ascii_upper s = map ascii_upper_char s"

text \<open>
  A provider that knows the ticker AAPL, with two closing prices of which the latest is
  160, raises on MSFT, has a NaN as the latest close of NANX and an empty history for every
  other ticker; its state counts the calls.
\<close>

definition example_yf :: "nat yfinance" where
  "example_yf ticker n =
     (if ticker = ''AAPL'' then Frame [Float 159, Float 160]
      else if ticker = ''MSFT'' then Raises
      else if ticker = ''NANX'' then Frame [Float 1, Float_NaN]
      else Frame [], Suc n)"

text \<open>
  A store with three users: the first owns a priced and an unpriced holding, the second
  owns one holding, and the third owns a holding of a negative number of shares.
\<close>

definition example_db :: db where
  "example_db =
     \<lparr>users =
        [\<lparr>u_id = Some 1, u_name = ''Portfolio User'', u_email = ''user@portfolio.com'',
          u_is_active = True, u_created_at = 0\<rparr>,
         \<lparr>u_id = Some 2, u_name = ''Test User'', u_email = ''test@example.com'',
          u_is_active = True, u_created_at = 1\<rparr>,
         \<lparr>u_id = Some 3, u_name = ''Short User'', u_email = ''short@example.com'',
          u_is_active = True, u_created_at = 1\<rparr>],
      stock_holdings =
        [\<lparr>h_id = Some 1, h_ticker = ''AAPL'', h_shares = Finite 10, h_purchase_price = Finite 150,
          h_user_id = 1, h_created_at = 2, h_updated_at = 2\<rparr>,
         \<lparr>h_id = Some 2, h_ticker = ''ZZZZ'', h_shares = Finite 5, h_purchase_price = Finite 20,
          h_user_id = 1, h_created_at = 3, h_updated_at = 3\<rparr>,
         \<lparr>h_id = Some 3, h_ticker = ''AAPL'', h_shares = Finite 1, h_purchase_price = Finite 1,
          h_user_id = 2, h_created_at = 4, h_updated_at = 4\<rparr>,
         \<lparr>h_id = Some 4, h_ticker = ''AAPL'', h_shares = Finite (- 10),
          h_purchase_price = Finite 150, h_user_id = 3, h_created_at = 5, h_updated_at = 5\<rparr>],
      users_id_seq = 3,
      stock_holdings_id_seq = 4\<rparr>"

section \<open>Facts about rounding\<close>

lemma nat_digits:
  assumes "0 < (n::nat)"
  shows "(10::rat) powi (int (floorlog 10 n) - 1) \<le> of_nat n"
    and "of_nat n < (10::rat) powi int (floorlog 10 n)"
proof -
  define f where "f = floorlog 10 n"
  have "f \<noteq> 0"
    using assms floorlog_eq_zero_iff [of 10 n] by (simp add: f_def)
  then obtain g where g: "f = Suc g"
    by (cases f) simp_all
  have b: "10 ^ (f - 1) \<le> n" "n < 10 ^ f"
    using floorlog_bounds [of n 10] assms by (simp_all add: f_def)
  have "(of_nat (10 ^ g) :: rat) \<le> of_nat n"
    using b(1) unfolding g by (simp only: of_nat_le_iff diff_Suc_1)
  then show "(10::rat) powi (int (floorlog 10 n) - 1) \<le> of_nat n"
    unfolding f_def [symmetric] g by simp
  have "(of_nat n :: rat) < of_nat (10 ^ f)"
    using b(2) by (simp only: of_nat_less_iff)
  then show "of_nat n < (10::rat) powi int (floorlog 10 n)"
    unfolding f_def [symmetric] by simp
qed

lemma adjusted_bounds:
  assumes "q \<noteq> 0"
  shows "10 powi adjusted q \<le> \<bar>q\<bar> \<and> \<bar>q\<bar> < 10 powi (adjusted q + 1)"
proof -
  obtain n d where nd: "quotient_of \<bar>q\<bar> = (n, d)"
    by (cases "quotient_of \<bar>q\<bar>")
  have dpos: "0 < d"
    using nd by (rule quotient_of_denom_pos)
  have qeq: "\<bar>q\<bar> = of_int n / of_int d"
    using nd by (rule quotient_of_div)
  have apos: "0 < \<bar>q\<bar>"
    using assms by simp
  have npos: "0 < n"
    using apos dpos qeq by (simp add: zero_less_divide_iff)
  define N where "N = nat n"
  define D where "D = nat d"
  have Npos: "0 < N" and Dpos: "0 < D"
    using npos dpos by (simp_all add: N_def D_def)
  have qND: "\<bar>q\<bar> = of_nat N / of_nat D"
    using qeq npos dpos by (simp add: N_def D_def)
  define a where "a = int (floorlog 10 N)"
  define b where "b = int (floorlog 10 D)"
  have N1: "(10::rat) powi (a - 1) \<le> of_nat N" and N2: "(of_nat N :: rat) < 10 powi a"
    using nat_digits [OF Npos] by (simp_all add: a_def)
  have D1: "(10::rat) powi (b - 1) \<le> of_nat D" and D2: "(of_nat D :: rat) < 10 powi b"
    using nat_digits [OF Dpos] by (simp_all add: b_def)
  have Dr: "(0::rat) < of_nat D"
    using Dpos by simp
  have upper: "\<bar>q\<bar> < 10 powi (a - b + 1)"
  proof -
    have "(of_nat N :: rat) < 10 powi a"
      by (rule N2)
    also have "\<dots> = 10 powi (a - b + 1) * 10 powi (b - 1)"
      by (simp add: power_int_add [symmetric])
    also have "\<dots> \<le> 10 powi (a - b + 1) * of_nat D"
      using D1 by (simp add: mult_left_mono)
    finally show ?thesis
      using Dr by (simp add: qND pos_divide_less_eq)
  qed
  have lower: "10 powi (a - b - 1) \<le> \<bar>q\<bar>"
  proof -
    have "10 powi (a - b - 1) * (of_nat D :: rat) \<le> 10 powi (a - b - 1) * 10 powi b"
      using D2 by (simp add: mult_left_mono less_imp_le)
    also have "\<dots> = 10 powi (a - 1)"
      by (simp add: power_int_add [symmetric])
    also have "\<dots> \<le> of_nat N"
      by (rule N1)
    finally show ?thesis
      using Dr by (simp add: qND pos_le_divide_eq)
  qed
  have adj: "adjusted q = (if 10 powi (a - b) \<le> \<bar>q\<bar> then a - b else a - b - 1)"
    by (simp add: adjusted_def nd Let_def a_def b_def N_def D_def)
  show ?thesis
  proof (cases "10 powi (a - b) \<le> \<bar>q\<bar>")
    case True
    then show ?thesis using upper adj by simp
  next
    case False
    then show ?thesis using lower adj by simp
  qed
qed

lemma pow10_less_imp: "(10::rat) powi a < 10 powi b \<Longrightarrow> a < b"
proof (rule ccontr)
  assume lt: "(10::rat) powi a < 10 powi b" and "\<not> a < b"
  then have "b \<le> a" by simp
  then have "(10::rat) powi b \<le> 10 powi a"
    by (rule power_int_increasing) simp
  with lt show False by simp
qed

lemma adjusted_eqI:
  assumes "q \<noteq> 0" and lo: "10 powi k \<le> \<bar>q\<bar>" and hi: "\<bar>q\<bar> < 10 powi (k + 1)"
  shows "adjusted q = k"
proof -
  have b: "10 powi adjusted q \<le> \<bar>q\<bar>" "\<bar>q\<bar> < 10 powi (adjusted q + 1)"
    using adjusted_bounds [OF assms(1)] by simp_all
  have "(10::rat) powi adjusted q < 10 powi (k + 1)"
    using b(1) hi by (rule le_less_trans)
  then have 1: "adjusted q < k + 1"
    by (rule pow10_less_imp)
  have "(10::rat) powi k < 10 powi (adjusted q + 1)"
    using lo b(2) by (rule le_less_trans)
  then have 2: "k < adjusted q + 1"
    by (rule pow10_less_imp)
  show ?thesis using 1 2 by simp
qed

lemma round_half_even_of_int: "round_half_even (of_int m) = m"
  by (simp add: round_half_even_def)

lemma round_half_even_eqI:
  assumes "of_int n - 1 / 2 < m" "m < of_int n + 1 / 2"
  shows "round_half_even m = n"
proof -
  have "\<lfloor>m\<rfloor> = n \<or> \<lfloor>m\<rfloor> = n - 1"
    using assms by linarith
  then show ?thesis
  proof
    assume f: "\<lfloor>m\<rfloor> = n"
    then have "m - of_int n < 1 / 2"
      using assms by linarith
    then show ?thesis
      by (simp add: round_half_even_def f)
  next
    assume f: "\<lfloor>m\<rfloor> = n - 1"
    then have "1 / 2 < m - of_int (n - 1)"
      using assms by simp
    then show ?thesis
      using f by (simp add: round_half_even_def)
  qed
qed

lemma round_half_even_tie:
  "round_half_even (of_int n + 1 / 2) = (if even n then n else n + 1)"
proof -
  have "\<lfloor>(of_int n :: rat) + 1 / 2\<rfloor> = n"
    by linarith
  then show ?thesis
    by (simp add: round_half_even_def)
qed


lemma adjusted_le:
  assumes "q \<noteq> 0" "\<bar>q\<bar> < 10 powi (k + 1)"
  shows "adjusted q \<le> k"
proof -
  have "10 powi adjusted q \<le> \<bar>q\<bar>"
    using adjusted_bounds [OF assms(1)] by simp
  then have "(10::rat) powi adjusted q < 10 powi (k + 1)"
    using assms(2) by (rule le_less_trans)
  then have "adjusted q < k + 1"
    by (rule pow10_less_imp)
  then show ?thesis by simp
qed

lemma adjusted_ge:
  assumes "q \<noteq> 0" "10 powi k \<le> \<bar>q\<bar>"
  shows "k \<le> adjusted q"
proof -
  have "\<bar>q\<bar> < 10 powi (adjusted q + 1)"
    using adjusted_bounds [OF assms(1)] by simp
  with assms(2) have "(10::rat) powi k < 10 powi (adjusted q + 1)"
    by (rule le_less_trans)
  then have "k < adjusted q + 1"
    by (rule pow10_less_imp)
  then show ?thesis by simp
qed

lemma round_half_even_le:
  assumes "m \<le> of_int n"
  shows "round_half_even m \<le> n"
proof (cases "\<lfloor>m\<rfloor> = n")
  case True
  then have "m = of_int n"
    using assms by linarith
  then show ?thesis
    by (simp add: round_half_even_of_int)
next
  case False
  then have "\<lfloor>m\<rfloor> + 1 \<le> n"
    using assms by linarith
  moreover have "round_half_even m \<le> \<lfloor>m\<rfloor> + 1"
    by (simp add: round_half_even_def Let_def)
  ultimately show ?thesis by simp
qed

lemma round_half_even_ge:
  assumes "of_int n \<le> m"
  shows "n \<le> round_half_even m"
proof -
  have "n \<le> \<lfloor>m\<rfloor>"
    using assms by linarith
  moreover have "\<lfloor>m\<rfloor> \<le> round_half_even m"
    by (simp add: round_half_even_def Let_def)
  ultimately show ?thesis by simp
qed

lemma rescale_zero: "rescale 0 e = 0"
  by (simp add: rescale_def round_half_even_def)


lemma rescale_abs_le:
  assumes "\<bar>q\<bar> \<le> 10 powi h" "e \<le> h"
  shows "\<bar>rescale q e\<bar> \<le> 10 powi h"
proof -
  obtain j :: nat where j: "h - e = int j"
    using assms(2) zero_le_imp_eq_int [of "h - e"] by auto
  define N :: int where "N = 10 ^ j"
  define m where "m = q / 10 powi e"
  have p: "(0::rat) < 10 powi e"
    by simp
  have he: "(10::rat) powi h = of_int N * 10 powi e"
  proof -
    have "h = int j + e"
      using j by simp
    then show ?thesis
      by (simp add: power_int_add N_def)
  qed
  have "\<bar>m\<bar> = \<bar>q\<bar> / 10 powi e"
    using p by (simp add: m_def abs_divide)
  also have "\<dots> \<le> of_int N"
    using assms(1) p unfolding he by (simp add: pos_divide_le_eq)
  finally have am: "\<bar>m\<bar> \<le> of_int N" .
  have "m \<le> of_int N"
    using am by linarith
  then have 1: "round_half_even m \<le> N"
    by (rule round_half_even_le)
  have "of_int (- N) \<le> m"
    using am by simp
  then have 2: "- N \<le> round_half_even m"
    by (rule round_half_even_ge)
  have "\<bar>round_half_even m\<bar> \<le> N"
    using 1 2 by linarith
  then have "\<bar>of_int (round_half_even m) :: rat\<bar> \<le> of_int N"
    by (simp only: of_int_abs [symmetric] of_int_le_iff)
  then have "\<bar>of_int (round_half_even m) :: rat\<bar> * 10 powi e \<le> of_int N * 10 powi e"
    using p by (simp only: mult_le_cancel_right_pos)
  then show ?thesis
    unfolding he by (simp add: rescale_def abs_mult m_def)
qed

lemma rescale_exact:
  assumes "e \<le> f"
  shows "rescale (of_int c * 10 powi f) e = of_int c * 10 powi f"
proof -
  obtain j :: nat where j: "f - e = int j"
    using assms zero_le_imp_eq_int [of "f - e"] by auto
  have "of_int c * 10 powi f / 10 powi e = (of_int c * 10 powi (f - e) :: rat)"
    by (simp add: power_int_diff)
  also have "\<dots> = of_int (c * 10 ^ j)"
    by (simp add: j)
  finally have "round_half_even (of_int c * 10 powi f / 10 powi e) = c * 10 ^ j"
    by (simp only: round_half_even_of_int)
  then have "rescale (of_int c * 10 powi f) e = of_int (c * 10 ^ j) * 10 powi e"
    by (simp add: rescale_def)
  also have "\<dots> = of_int c * (10 powi int j * 10 powi e)"
    by simp
  also have "10 powi int j * (10::rat) powi e = 10 powi f"
    unfolding j [symmetric] by (simp add: power_int_add [symmetric])
  finally show ?thesis .
qed

lemma context_limits:
  "Etiny \<le> - 27" "Etiny \<le> 0" "Etiny \<le> Emin" "Emin \<le> 0" "28 \<le> Emax" "0 \<le> Emax"
  "Etiny = Emin - 27"
  by (simp_all add: Etiny_def Emin_def Emax_def prec_def)

lemma dec_fix_zero: "dec_fix 0 = Inr (Finite 0)"
  by (simp add: dec_fix_def)

lemma dec_fix_cases: "dec_fix q = Inl Overflow \<or> (\<exists>r. dec_fix q = Inr (Finite r))"
  by (simp add: dec_fix_def Let_def)


text \<open>A result below \<open>10 ^ h\<close>, with \<open>h\<close> in the range of the context, is not an overflow.\<close>

lemma dec_fix_bounded:
  assumes "\<bar>q\<bar> < 10 powi h" "Etiny \<le> h" "h \<le> Emax"
  shows "\<exists>r. dec_fix q = Inr (Finite r) \<and> \<bar>r\<bar> \<le> 10 powi h"
proof (cases "q = 0")
  case True
  then show ?thesis
    by (simp add: dec_fix_zero)
next
  case False
  let ?e = "max (adjusted q - (int prec - 1)) Etiny"
  let ?r = "rescale q ?e"
  have "adjusted q \<le> h - 1"
    using adjusted_le [OF False, of "h - 1"] assms(1) by simp
  then have e: "?e \<le> h"
    using assms(2) by (simp add: prec_def)
  have b: "\<bar>?r\<bar> \<le> 10 powi h"
    using assms(1) e by (intro rescale_abs_le) simp_all
  have "?r \<noteq> 0 \<Longrightarrow> adjusted ?r \<le> Emax"
  proof -
    assume nz: "?r \<noteq> 0"
    have "(10::rat) powi h < 10 powi (h + 1)"
      by (rule power_int_strict_increasing) simp_all
    with b have "\<bar>?r\<bar> < 10 powi (h + 1)"
      by (rule le_less_trans)
    then have "adjusted ?r \<le> h"
      by (rule adjusted_le [OF nz])
    then show ?thesis
      using assms(3) by simp
  qed
  then have "dec_fix q = Inr (Finite ?r)"
    using False by (auto simp add: dec_fix_def Let_def)
  then show ?thesis
    using b by blast
qed

lemma dec_fix_exact:
  assumes "\<bar>c\<bar> < 10 ^ 28" "Etiny \<le> e" "e + 28 \<le> Emax"
  shows "dec_fix (of_int c * 10 powi e) = Inr (Finite (of_int c * 10 powi e))"
proof (cases "c = 0")
  case True
  then show ?thesis
    by (simp add: dec_fix_zero)
next
  case False
  define q :: rat where "q = of_int c * 10 powi e"
  have q0: "q \<noteq> 0"
    using False by (simp add: q_def)
  have "\<bar>q\<bar> = of_int \<bar>c\<bar> * 10 powi e"
    by (simp add: q_def abs_mult)
  also have "\<dots> < of_int (10 ^ 28) * 10 powi e"
    using assms(1)
    by (intro mult_strict_right_mono) (simp_all only: of_int_less_iff zero_less_power_int zero_less_numeral)
  also have "\<dots> = 10 powi (28 + e)"
    by (simp add: power_int_add)
  finally have lt: "\<bar>q\<bar> < 10 powi (e + 27 + 1)"
    by (simp add: add.commute)
  then have "adjusted q \<le> e + 27"
    by (rule adjusted_le [OF q0])
  then have "max (adjusted q - (int prec - 1)) Etiny \<le> e"
    using assms(2) by (simp add: prec_def)
  then have r: "rescale q (max (adjusted q - (int prec - 1)) Etiny) = q"
    unfolding q_def by (rule rescale_exact)
  have "adjusted q \<le> Emax"
    using \<open>adjusted q \<le> e + 27\<close> assms(3) by simp
  then have "dec_fix q = Inr (Finite q)"
    using q0 r by (simp add: dec_fix_def Let_def)
  then show ?thesis
    by (simp add: q_def)
qed

lemma dec_fix_of_int: "\<bar>c\<bar> < 10 ^ 28 \<Longrightarrow> dec_fix (of_int c) = Inr (Finite (of_int c))"
  using dec_fix_exact [of c 0] context_limits by simp

lemma dec_fix_eq:
  assumes "q \<noteq> 0" "10 powi k \<le> \<bar>q\<bar>" "\<bar>q\<bar> < 10 powi (k + 1)"
    and "Etiny \<le> k - 27" "k + 1 \<le> Emax"
  shows "dec_fix q = Inr (Finite (rescale q (k - 27)))"
proof -
  have a: "adjusted q = k"
    using assms(1-3) by (rule adjusted_eqI)
  let ?r = "rescale q (k - 27)"
  have b: "\<bar>?r\<bar> \<le> 10 powi (k + 1)"
    using assms(3) by (intro rescale_abs_le) simp_all
  have "?r \<noteq> 0 \<Longrightarrow> adjusted ?r \<le> Emax"
  proof -
    assume nz: "?r \<noteq> 0"
    have "(10::rat) powi (k + 1) < 10 powi (k + 1 + 1)"
      by (rule power_int_strict_increasing) simp_all
    with b have "\<bar>?r\<bar> < 10 powi (k + 1 + 1)"
      by (rule le_less_trans)
    then have "adjusted ?r \<le> k + 1"
      by (rule adjusted_le [OF nz])
    then show ?thesis
      using assms(5) by simp
  qed
  moreover have "max (adjusted q - (int prec - 1)) Etiny = k - 27"
    using a assms(4) by (simp add: prec_def)
  ultimately show ?thesis
    using assms(1) by (auto simp add: dec_fix_def Let_def)
qed

section \<open>Facts about the Decimal operations\<close>

lemma dec_fix_lower:
  assumes "dec_fix q = Inr (Finite r)" "10 powi l \<le> q" "Emin \<le> l"
  shows "10 powi l \<le> r"
proof -
  have qpos: "0 < q"
    using assms(2) zero_less_power_int [of "10::rat" l] by linarith
  then have q0: "q \<noteq> 0" and aq: "\<bar>q\<bar> = q"
    by simp_all
  define k where "k = adjusted q"
  have lk: "l \<le> k"
    using adjusted_ge [OF q0, of l] assms(2) aq by (simp add: k_def)
  have kq: "10 powi k \<le> q"
    using adjusted_bounds [OF q0] aq by (simp add: k_def)
  have e: "max (k - (int prec - 1)) Etiny = k - 27"
    using lk assms(3) context_limits(7) by (simp add: prec_def)
  have r: "r = rescale q (k - 27)"
    using assms(1) q0 e by (simp add: dec_fix_def Let_def k_def split: if_splits)
  have p: "(0::rat) < 10 powi (k - 27)"
    by simp
  have "(of_int (10 ^ 27) :: rat) * 10 powi (k - 27) = 10 powi k"
    by (simp add: power_int_diff)
  then have "of_int (10 ^ 27) \<le> q / 10 powi (k - 27)"
    using kq p by (simp add: pos_le_divide_eq)
  then have "10 ^ 27 \<le> round_half_even (q / 10 powi (k - 27))"
    by (rule round_half_even_ge)
  then have "(of_int (10 ^ 27) :: rat) \<le> of_int (round_half_even (q / 10 powi (k - 27)))"
    by (simp only: of_int_le_iff)
  then have "(of_int (10 ^ 27) :: rat) * 10 powi (k - 27) \<le> r"
    using p unfolding r rescale_def by (simp only: mult_le_cancel_right_pos)
  then have "10 powi k \<le> r"
    using \<open>(of_int (10 ^ 27) :: rat) * 10 powi (k - 27) = 10 powi k\<close> by simp
  moreover have "(10::rat) powi l \<le> 10 powi k"
    using lk by (rule power_int_increasing) simp
  ultimately show ?thesis
    by (rule order_trans [rotated])
qed


lemma dec_add_finite_cases:
  "dec_add (Finite a) (Finite b) = Inl Overflow \<or> (\<exists>r. dec_add (Finite a) (Finite b) = Inr (Finite r))"
  using dec_fix_cases [of "a + b"] by simp




text \<open>What a returned view says of the steps of \<^verbatim>\<open>from_holding\<close>.\<close>

lemma from_holding_InrD:
  assumes "from_holding holding p = Inr v"
  shows "h_id holding = Some (v_id v)"
    and "v_ticker v = h_ticker holding"
    and "v_shares v = h_shares holding"
    and "v_purchase_price v = h_purchase_price holding"
    and "v_created_at v = h_created_at holding"
    and "v_updated_at v = h_updated_at holding"
    and "v_current_price v = p"
    and "dec_mul (h_shares holding) p = Inr (v_current_value v)"
    and "\<exists>pv. h_total_purchase_value holding = Inr pv
           \<and> dec_sub (v_current_value v) pv = Inr (v_gain_loss v)
           \<and> (dec_gt_zero pv = Inr True \<longrightarrow>
                (\<exists>q. dec_div (v_gain_loss v) pv = Inr q
                   \<and> dec_mul q (Finite 100) = Inr (v_gain_loss_percent v)))
           \<and> (dec_gt_zero pv = Inr False \<longrightarrow> v_gain_loss_percent v = Finite 0)
           \<and> (\<exists>t. dec_gt_zero pv = Inr t)"
    and "is_finite (v_shares v)" "is_finite (v_purchase_price v)" "is_finite (v_current_price v)"
      "is_finite (v_current_value v)" "is_finite (v_gain_loss v)" "is_finite (v_gain_loss_percent v)"
  using assms
  by (auto simp add: from_holding_def HoldingWithCurrentPrice_def
      split: option.splits sum.splits bool.splits if_splits)

lemma is_finite_iff: "is_finite x \<longleftrightarrow> (\<exists>r. x = Finite r)"
  by (cases x) simp_all

lemma money_limits:
  "0 \<le> money_exp" "Emin \<le> - (2 * money_exp)" "Etiny \<le> 2 * money_exp"
  "Etiny \<le> 2 * money_exp + 1" "Etiny \<le> 4 * money_exp + 2" "Etiny \<le> 4 * money_exp + 5"
  "2 * money_exp \<le> Emax" "2 * money_exp + 1 \<le> Emax" "4 * money_exp + 2 \<le> Emax"
  "4 * money_exp + 5 \<le> Emax"
  by (simp_all add: money_exp_def Emin_def Emax_def Etiny_def prec_def)

lemma divide_eqI:
  fixes x y z :: rat
  assumes "x * y = z" "0 < y"
  shows "z / y = x"
  using assms by auto

lemma moderate_product:
  assumes "moderate x" "moderate y"
  shows "\<bar>x * y\<bar> < 10 powi (2 * money_exp)"
proof (cases "x = 0 \<or> y = 0")
  case True
  then show ?thesis by auto
next
  case False
  then have "\<bar>x\<bar> < 10 powi money_exp" "\<bar>y\<bar> < 10 powi money_exp"
    using assms by (simp_all add: moderate_def)
  then have "\<bar>x\<bar> * \<bar>y\<bar> < 10 powi money_exp * 10 powi money_exp"
    by (intro mult_strict_mono) simp_all
  also have "\<dots> = (10::rat) powi (2 * money_exp)"
    by (simp add: power_int_add [symmetric])
  finally show ?thesis
    by (simp add: abs_mult)
qed

lemma moderate_product_lower:
  assumes "moderate x" "moderate y" "0 \<le> x" "0 \<le> y" "x * y \<noteq> 0"
  shows "10 powi (- (2 * money_exp)) \<le> x * y"
proof -
  have "10 powi (- money_exp) \<le> x" "10 powi (- money_exp) \<le> y"
    using assms by (auto simp add: moderate_def)
  then have "10 powi (- money_exp) * 10 powi (- money_exp) \<le> x * y"
    using assms(3) by (intro mult_mono) simp_all
  moreover have "10 powi (- money_exp) * 10 powi (- money_exp) = (10::rat) powi (- (2 * money_exp))"
    by (simp add: power_int_add [symmetric])
  ultimately show ?thesis by simp
qed


text \<open>Values of moderate size do not overflow.\<close>

lemma from_holding_moderate:
  assumes id: "h_id holding = Some i"
    and s: "h_shares holding = Finite a" and pp: "h_purchase_price holding = Finite b"
    and nn: "0 \<le> a" "0 \<le> b"
    and m: "moderate a" "moderate b" "moderate c"
  shows "\<exists>v. from_holding holding (Finite c) = Inr v"
proof -
  note defs = from_holding_def h_total_purchase_value_def HoldingWithCurrentPrice_def id s pp
  let ?B = money_exp
  obtain cv where cv: "dec_mul (Finite a) (Finite c) = Inr (Finite cv)"
    and cvb: "\<bar>cv\<bar> \<le> 10 powi (2 * ?B)"
    using dec_fix_bounded [OF moderate_product [OF m(1) m(3)] money_limits(3) money_limits(7)]
    by auto
  obtain pv where pv: "dec_mul (Finite a) (Finite b) = Inr (Finite pv)"
    and pvb: "\<bar>pv\<bar> \<le> 10 powi (2 * ?B)"
    using dec_fix_bounded [OF moderate_product [OF m(1) m(2)] money_limits(3) money_limits(7)]
    by auto
  have "\<bar>cv - pv\<bar> \<le> \<bar>cv\<bar> + \<bar>pv\<bar>"
    by simp
  also have "\<dots> \<le> 10 powi (2 * ?B) + 10 powi (2 * ?B)"
    using cvb pvb by simp
  also have "\<dots> < 10 * 10 powi (2 * ?B)"
    by simp
  also have "\<dots> = (10::rat) powi (2 * ?B + 1)"
    by (simp add: power_int_add)
  finally have "\<bar>cv - pv\<bar> < 10 powi (2 * ?B + 1)" .
  then obtain gl where gl: "dec_sub (Finite cv) (Finite pv) = Inr (Finite gl)"
    and glb: "\<bar>gl\<bar> \<le> 10 powi (2 * ?B + 1)"
    using dec_fix_bounded [OF _ money_limits(4) money_limits(8), of "cv - pv"] by auto
  show ?thesis
  proof (cases "0 < pv")
    case False
    then show ?thesis using cv pv gl by (simp add: defs)
  next
    case True
    then have pv0: "pv \<noteq> 0" by simp
    have "a * b \<noteq> 0"
    proof
      assume "a * b = 0"
      then have "dec_mul (Finite a) (Finite b) = Inr (Finite 0)"
        unfolding dec_mul.simps by (simp only: dec_fix_zero)
      with pv True show False by simp
    qed
    then have lb: "10 powi (- (2 * ?B)) \<le> a * b"
      by (rule moderate_product_lower [OF m(1) m(2) nn])
    have pv': "dec_fix (a * b) = Inr (Finite pv)"
      using pv by simp
    have pvl: "10 powi (- (2 * ?B)) \<le> pv"
      by (rule dec_fix_lower [OF pv' lb money_limits(2)])
    have "\<bar>gl / pv\<bar> = \<bar>gl\<bar> / pv"
      using True by simp
    also have "\<dots> \<le> 10 powi (2 * ?B + 1) / pv"
      using glb True by (simp add: divide_right_mono)
    also have "\<dots> \<le> 10 powi (2 * ?B + 1) / 10 powi (- (2 * ?B))"
      using pvl True by (intro divide_left_mono) simp_all
    also have "\<dots> = (10::rat) powi (4 * ?B + 1)"
    proof -
      have "(10::rat) powi (4 * ?B + 1) * 10 powi (- (2 * ?B)) = 10 powi (4 * ?B + 1 + - (2 * ?B))"
        by (rule power_int_add [symmetric]) simp
      also have "4 * ?B + 1 + - (2 * ?B) = 2 * ?B + 1"
        by simp
      finally have "(10::rat) powi (4 * ?B + 1) * 10 powi (- (2 * ?B)) = 10 powi (2 * ?B + 1)" .
      moreover have "(0::rat) < 10 powi (- (2 * ?B))"
        by simp
      ultimately show ?thesis
        by (rule divide_eqI)
    qed
    also have "\<dots> < 10 powi (4 * ?B + 2)"
      by (rule power_int_strict_increasing) simp_all
    finally have "\<bar>gl / pv\<bar> < 10 powi (4 * ?B + 2)" .
    then obtain q where q: "dec_div (Finite gl) (Finite pv) = Inr (Finite q)"
      and qb: "\<bar>q\<bar> \<le> 10 powi (4 * ?B + 2)"
      using dec_fix_bounded [OF _ money_limits(5) money_limits(9), of "gl / pv"] pv0 by auto
    have "\<bar>q * 100\<bar> = \<bar>q\<bar> * 10 powi 2"
      by (simp add: abs_mult)
    also have "\<dots> \<le> 10 powi (4 * ?B + 2) * 10 powi 2"
      using qb by (intro mult_right_mono) simp_all
    also have "\<dots> = (10::rat) powi (4 * ?B + 4)"
      using power_int_add [of "10::rat" "4 * ?B + 2" 2] by (simp add: add.commute)
    also have "\<dots> < 10 powi (4 * ?B + 5)"
      by (rule power_int_strict_increasing) simp_all
    finally have "\<bar>q * 100\<bar> < 10 powi (4 * ?B + 5)" .
    then obtain r where r: "dec_mul (Finite q) (Finite 100) = Inr (Finite r)"
      using dec_fix_bounded [OF _ money_limits(6) money_limits(10), of "q * 100"] by auto
    show ?thesis using cv pv gl True q r by (simp add: defs)
  qed
qed

lemma dec_mul_10_160: "dec_mul (Finite 10) (Finite 160) = Inr (Finite 1600)"
  using dec_fix_of_int [of 1600] by simp

lemma dec_mul_10_150: "dec_mul (Finite 10) (Finite 150) = Inr (Finite 1500)"
  using dec_fix_of_int [of 1500] by simp

lemma dec_sub_1600_1500: "dec_sub (Finite 1600) (Finite 1500) = Inr (Finite 100)"
  using dec_fix_of_int [of 100] by simp

lemma round_half_even_example:
  "round_half_even (20000000000000000000000000000 / 3) = 6666666666666666666666666667"
  by (rule round_half_even_eqI) simp_all

lemma dec_fix_100_1500:
  "dec_fix (100 / 1500) = Inr (Finite (6666666666666666666666666667 / 10 ^ 29))"
proof -
  have "dec_fix (100 / 1500) = Inr (Finite (rescale (100 / 1500) (- 2 - 27)))"
    by (rule dec_fix_eq) (simp_all add: Etiny_def Emin_def Emax_def prec_def)
  also have "rescale (100 / 1500) (- 2 - 27) =
      of_int (round_half_even (20000000000000000000000000000 / 3)) * 10 powi (- 29)"
    by (simp add: rescale_def)
  finally show ?thesis
    by (simp add: round_half_even_example)
qed

lemma dec_div_100_1500:
  "dec_div (Finite 100) (Finite 1500) = Inr (Finite (6666666666666666666666666667 / 10 ^ 29))"
  using dec_fix_100_1500 by (simp only: dec_div.simps) simp

lemma dec_mul_ratio_100:
  "dec_mul (Finite (6666666666666666666666666667 / 10 ^ 29)) (Finite 100) =
     Inr (Finite (6666666666666666666666666667 / 10 ^ 27))"
  using dec_fix_exact [of 6666666666666666666666666667 "- 27"] context_limits by simp

lemma from_holding_example:
  assumes "h_id holding = Some i" "h_shares holding = Finite 10"
    "h_purchase_price holding = Finite 150"
  shows "from_holding holding (Finite 160) =
    Inr \<lparr>v_id = i, v_ticker = h_ticker holding, v_shares = Finite 10,
         v_purchase_price = Finite 150, v_current_price = Finite 160,
         v_current_value = Finite 1600, v_gain_loss = Finite 100,
         v_gain_loss_percent = Finite (6666666666666666666666666667 / 10 ^ 27),
         v_created_at = h_created_at holding, v_updated_at = h_updated_at holding\<rparr>"
proof -
  have pv: "h_total_purchase_value holding = Inr (Finite 1500)"
    by (simp only: h_total_purchase_value_def assms dec_mul_10_150)
  have cv: "dec_mul (h_shares holding) (Finite 160) = Inr (Finite 1600)"
    by (simp only: assms dec_mul_10_160)
  have gt: "dec_gt_zero (Finite 1500) = Inr True"
    by simp
  have fin: "HoldingWithCurrentPrice
      \<lparr>v_id = i, v_ticker = h_ticker holding, v_shares = Finite 10,
       v_purchase_price = Finite 150, v_current_price = Finite 160,
       v_current_value = Finite 1600, v_gain_loss = Finite 100,
       v_gain_loss_percent = Finite (6666666666666666666666666667 / 10 ^ 27),
       v_created_at = h_created_at holding, v_updated_at = h_updated_at holding\<rparr> =
    Inr \<lparr>v_id = i, v_ticker = h_ticker holding, v_shares = Finite 10,
       v_purchase_price = Finite 150, v_current_price = Finite 160,
       v_current_value = Finite 1600, v_gain_loss = Finite 100,
       v_gain_loss_percent = Finite (6666666666666666666666666667 / 10 ^ 27),
       v_created_at = h_created_at holding, v_updated_at = h_updated_at holding\<rparr>"
    by (simp add: HoldingWithCurrentPrice_def)
  show ?thesis
    unfolding from_holding_def
    by (simp only: assms pv dec_mul_10_160 dec_sub_1600_1500 gt dec_div_100_1500
        dec_mul_ratio_100 option.case sum.case bool.case fin)
qed



section \<open>Holding views\<close>




text \<open>
  C5. For a holding whose id is unassigned (\<open>None\<close>) and any price, \<^verbatim>\<open>from_holding\<close>
  returns no view: it raises the \<^verbatim>\<open>ValueError\<close> of the contract violation.
\<close>

theorem from_holding_unassigned:
  "h_id holding = None \<Longrightarrow>
   from_holding holding p = Inl (ValueError ''StockHolding ID cannot be None'')"
  by (simp add: from_holding_def)

theorem from_holding_unassigned_witness:
  "from_holding
     \<lparr>h_id = None, h_ticker = ''AAPL'', h_shares = Finite 10, h_purchase_price = Finite 150,
      h_user_id = 1, h_created_at = 0, h_updated_at = 0\<rparr> (Finite 160)
   = Inl (ValueError ''StockHolding ID cannot be None'')"
  using from_holding_unassigned
    [of "\<lparr>h_id = None, h_ticker = ''AAPL'', h_shares = Finite 10,
          h_purchase_price = Finite 150, h_user_id = 1, h_created_at = 0,
          h_updated_at = 0\<rparr>" "Finite 160"]
  by simp

section \<open>Facts about the example\<close>

lemma ascii_upper_aapl: "ascii_upper ''aapl'' = ''AAPL''"
  by code_simp

lemma ascii_upper_AAPL: "ascii_upper ''AAPL'' = ''AAPL''"
  by code_simp

lemma ascii_upper_ZZZZ: "ascii_upper ''ZZZZ'' = ''ZZZZ''"
  by code_simp

lemma ascii_upper_zzzz: "ascii_upper ''zzzz'' = ''ZZZZ''"
  by code_simp

lemma ascii_upper_msft: "ascii_upper ''msft'' = ''MSFT''"
  by code_simp

lemma ascii_upper_nanx: "ascii_upper ''nanx'' = ''NANX''"
  by code_simp

lemma example_db_ok: "db_ok example_db"
  by (simp add: db_ok_def example_db_def)

lemma round2_of_int: "round2 (of_int m) = of_int m"
proof -
  have "round_half_even (of_int m * 100) = round_half_even (of_int (m * 100))"
    by simp
  also have "\<dots> = m * 100"
    by (rule round_half_even_of_int)
  finally show ?thesis
    by (simp add: round2_def)
qed

lemma round2_160: "round2 160 = 160"
  using round2_of_int [of 160] by simp

lemma example_price_aapl:
  "get_stock_price ascii_upper example_yf ''aapl'' n = (Some (Finite 160), Suc n)"
  by (simp add: get_stock_price_def ascii_upper_aapl example_yf_def round2_160)

lemma example_price_AAPL:
  "get_stock_price ascii_upper example_yf ''AAPL'' n = (Some (Finite 160), Suc n)"
  by (simp add: get_stock_price_def ascii_upper_AAPL example_yf_def round2_160)

lemma example_price_ZZZZ:
  "get_stock_price ascii_upper example_yf ''ZZZZ'' n = (None, Suc n)"
  by (simp add: get_stock_price_def ascii_upper_ZZZZ example_yf_def)

lemma example_price_zzzz:
  "get_stock_price ascii_upper example_yf ''zzzz'' n = (None, Suc n)"
  by (simp add: get_stock_price_def ascii_upper_zzzz example_yf_def)

lemma example_price_msft:
  "get_stock_price ascii_upper example_yf ''msft'' n = (None, Suc n)"
  by (simp add: get_stock_price_def ascii_upper_msft example_yf_def)

lemma example_price_nanx:
  "get_stock_price ascii_upper example_yf ''nanx'' n = (Some NaN, Suc n)"
  by (simp add: get_stock_price_def ascii_upper_nanx example_yf_def)

section \<open>Facts about the session\<close>

lemma db_ok_holding_le:
  assumes "db_ok d" "r \<in> set (stock_holdings d)"
  shows "\<exists>i. h_id r = Some i \<and> i \<le> stock_holdings_id_seq d"
proof -
  have "list_all (\<lambda>h. issued (h_id h) (stock_holdings_id_seq d)) (stock_holdings d)"
    using assms(1) by (simp add: db_ok_def)
  then have "issued (h_id r) (stock_holdings_id_seq d)"
    using assms(2) by (simp add: list_all_iff)
  then show ?thesis
    by (cases "h_id r") simp_all
qed

lemma db_ok_holding_ids:
  assumes "db_ok d"
  shows "\<forall>h \<in> set (get_user_holdings user_id d). h_id h \<noteq> None"
proof
  fix h
  assume "h \<in> set (get_user_holdings user_id d)"
  then have "h \<in> set (stock_holdings d)"
    by (simp add: get_user_holdings_def exec_select_holdings_def)
  then show "h_id h \<noteq> None"
    using db_ok_holding_le [OF assms, of h] by auto
qed

lemma session_add_holding_eq:
  "session_add_holding h d =
     (h\<lparr>h_id := Some (stock_holdings_id_seq d + 1)\<rparr>,
      d\<lparr>stock_holdings := stock_holdings d @ [h\<lparr>h_id := Some (stock_holdings_id_seq d + 1)\<rparr>],
        stock_holdings_id_seq := stock_holdings_id_seq d + 1\<rparr>)"
  by (simp add: session_add_holding_def Let_def)

lemma issued_mono: "issued k n \<Longrightarrow> n \<le> m \<Longrightarrow> issued k m"
  by (cases k) simp_all

lemma db_ok_session_add_holding:
  assumes "db_ok d"
  shows "db_ok (snd (session_add_holding h d))"
proof -
  let ?i = "stock_holdings_id_seq d + 1"
  have fresh: "Some ?i \<notin> h_id ` set (stock_holdings d)"
  proof
    assume "Some ?i \<in> h_id ` set (stock_holdings d)"
    then obtain r where "r \<in> set (stock_holdings d)" "h_id r = Some ?i"
      by auto
    then show False
      using db_ok_holding_le [OF assms, of r] by simp
  qed
  have "list_all (\<lambda>h. issued (h_id h) (stock_holdings_id_seq d)) (stock_holdings d)"
    using assms by (simp add: db_ok_def)
  then have mono: "list_all (\<lambda>h. issued (h_id h) ?i) (stock_holdings d)"
    unfolding list_all_iff using issued_mono [where m = ?i and n = "stock_holdings_id_seq d"]
    by simp
  show ?thesis
    using assms fresh mono by (simp add: session_add_holding_eq db_ok_def)
qed

lemma find_None_iff': "find P xs = None \<longleftrightarrow> (\<forall>x \<in> set xs. \<not> P x)"
  by (induction xs) simp_all

lemma delete_holding_eq:
  "delete_holding holding_id d =
     ((\<exists>h \<in> set (stock_holdings d). h_id h = Some holding_id),
      d\<lparr>stock_holdings := filter (\<lambda>h. h_id h \<noteq> Some holding_id) (stock_holdings d)\<rparr>)"
proof (cases "session_get_holding holding_id d")
  case None
  then have no: "\<forall>h \<in> set (stock_holdings d). h_id h \<noteq> Some holding_id"
    by (simp add: session_get_holding_def find_None_iff')
  then have "filter (\<lambda>h. h_id h \<noteq> Some holding_id) (stock_holdings d) = stock_holdings d"
    by (simp add: filter_id_conv)
  then show ?thesis
    using None no by (simp add: delete_holding_def)
next
  case (Some h)
  then have "h \<in> set (stock_holdings d)" "h_id h = Some holding_id"
    using find_Some_iff [of "\<lambda>h. h_id h = Some holding_id" "stock_holdings d" h]
    by (auto simp add: session_get_holding_def)
  then show ?thesis
    using Some by (auto simp add: delete_holding_def session_delete_holding_def)
qed

lemma first_filter_None: "first (filter P xs) = None \<Longrightarrow> filter P xs = []"
  by (cases "filter P xs") (simp_all add: first_def)

lemma first_filter_Some: "first (filter P xs) = Some x \<Longrightarrow> P x \<and> x \<in> set xs"
proof -
  assume "first (filter P xs) = Some x"
  then obtain ys where "filter P xs = x # ys"
    by (cases "filter P xs") (simp_all add: first_def)
  then have "x \<in> set (filter P xs)"
    by simp
  then show ?thesis
    by simp
qed

lemma db_ok_empty: "db_ok empty_db"
  by (simp add: db_ok_def empty_db_def)

lemma db_ok_delete_holding:
  assumes "db_ok d"
  shows "db_ok (snd (delete_holding holding_id d))"
proof -
  let ?keep = "\<lambda>h. h_id h \<noteq> Some holding_id"
  have a: "list_all (\<lambda>h. issued (h_id h) (stock_holdings_id_seq d)) (stock_holdings d)"
    and b: "distinct (map h_id (stock_holdings d))"
    and c: "list_all (\<lambda>u. issued (u_id u) (users_id_seq d)) (users d)"
    and e: "distinct (map u_id (users d))"
    using assms by (simp_all add: db_ok_def)
  have a': "list_all (\<lambda>h. issued (h_id h) (stock_holdings_id_seq d)) (filter ?keep (stock_holdings d))"
    using a by (simp add: list_all_iff)
  have b': "distinct (map h_id (filter ?keep (stock_holdings d)))"
    using b by (rule distinct_map_filter)
  show ?thesis
    using a' b' c e by (simp add: delete_holding_eq db_ok_def)
qed

lemma db_ok_user_le:
  assumes "db_ok d" "r \<in> set (users d)"
  shows "\<exists>i. u_id r = Some i \<and> i \<le> users_id_seq d"
proof -
  have "list_all (\<lambda>u. issued (u_id u) (users_id_seq d)) (users d)"
    using assms(1) by (simp add: db_ok_def)
  then have "issued (u_id r) (users_id_seq d)"
    using assms(2) by (simp add: list_all_iff)
  then show ?thesis
    by (cases "u_id r") simp_all
qed

lemma db_ok_session_add_user:
  assumes "db_ok d"
  shows "db_ok (snd (session_add_user u d))"
proof -
  let ?i = "users_id_seq d + 1"
  have fresh: "Some ?i \<notin> u_id ` set (users d)"
  proof
    assume "Some ?i \<in> u_id ` set (users d)"
    then obtain r where "r \<in> set (users d)" "u_id r = Some ?i"
      by auto
    then show False
      using db_ok_user_le [OF assms, of r] by simp
  qed
  have "list_all (\<lambda>u. issued (u_id u) (users_id_seq d)) (users d)"
    using assms by (simp add: db_ok_def)
  then have mono: "list_all (\<lambda>u. issued (u_id u) ?i) (users d)"
    unfolding list_all_iff using issued_mono [where m = ?i and n = "users_id_seq d"]
    by simp
  show ?thesis
    using assms fresh mono by (simp add: session_add_user_def db_ok_def Let_def)
qed

lemma db_ok_get_or_create_default_user:
  assumes "db_ok d"
  shows "db_ok (snd (get_or_create_default_user now d))"
proof (cases "first (exec_select_users (\<lambda>u. u_email u = ''user@portfolio.com'') d)")
  case None
  then show ?thesis
    using db_ok_session_add_user [OF assms] by (simp add: get_or_create_default_user_def)
next
  case (Some u)
  then show ?thesis
    using assms by (simp add: get_or_create_default_user_def)
qed

lemma db_ok_add_holding:
  assumes "db_ok d"
  shows "db_ok (fst (snd (add_holding upper yf created updated user_id ticker shares
    purchase_price d w)))"
proof (cases "get_stock_price upper yf ticker w")
  case (Pair quote w1)
  show ?thesis
  proof (cases quote)
    case None
    then show ?thesis
      using Pair assms by (simp add: add_holding_def)
  next
    case (Some p)
    then show ?thesis
      using Pair db_ok_session_add_holding [OF assms]
      by (simp add: add_holding_def split_beta Let_def)
  qed
qed

section \<open>Adding a holding\<close>

text \<open>
  C3. For every user id, ticker, shares and purchase price: if the quote lookup for the
  ticker returns \<open>None\<close> then \<^verbatim>\<open>add_holding\<close> returns \<open>None\<close> and the store is exactly the
  one before; otherwise a holding is returned and persisted as a new row.
\<close>

theorem add_holding_rejects:
  assumes "get_stock_price upper yf ticker w = (quote, w1)"
  shows "(quote = None \<longrightarrow>
        add_holding upper yf created updated user_id ticker shares purchase_price d w
          = (None, d, w1))
    \<and> (quote \<noteq> None \<longrightarrow>
        (\<exists>h d'. add_holding upper yf created updated user_id ticker shares purchase_price d w
            = (Some h, d', w1)
          \<and> stock_holdings d' = stock_holdings d @ [h]))"
  using assms by (cases quote) (simp_all add: add_holding_def session_add_holding_eq)

theorem add_holding_rejects_witness:
  "get_stock_price ascii_upper example_yf ''zzzz'' 0 = (None, 1)
   \<and> add_holding ascii_upper example_yf 7 8 1 ''zzzz'' (Finite 3) (Finite 155) example_db 0 = (None, example_db, 1)
   \<and> get_stock_price ascii_upper example_yf ''msft'' 0 = (None, 1)
   \<and> add_holding ascii_upper example_yf 7 8 1 ''msft'' (Finite 3) (Finite 155) example_db 0 = (None, example_db, 1)
   \<and> get_stock_price ascii_upper example_yf ''aapl'' 0 = (Some (Finite 160), 1)
   \<and> (\<exists>h d'. add_holding ascii_upper example_yf 7 8 1 ''aapl'' (Finite 3) (Finite 155) example_db 0 = (Some h, d', 1)
        \<and> stock_holdings d' = stock_holdings example_db @ [h])"
  using add_holding_rejects [of ascii_upper example_yf "''zzzz''" 0 None 1 7 8 1 "Finite 3" "Finite 155" example_db]
    add_holding_rejects [of ascii_upper example_yf "''msft''" 0 None 1 7 8 1 "Finite 3" "Finite 155" example_db]
    add_holding_rejects [of ascii_upper example_yf "''aapl''" 0 "Some (Finite 160)" 1 7 8 1 "Finite 3" "Finite 155" example_db]
  by (simp add: example_price_zzzz example_price_msft example_price_aapl)

text \<open>
  C8. For every user id, ticker, shares and purchase price, when the quote lookup resolves
  the ticker, \<^verbatim>\<open>add_holding\<close> persists exactly one new holding and returns it: its ticker is
  the uppercased ticker, its shares, purchase price and user id are the given ones, it has
  an assigned identity and its two timestamps. The user table is unchanged; in a store
  whose rows have their keys the identity is a new one and the store stays well formed.
\<close>

theorem add_holding_persists:
  assumes "get_stock_price upper yf ticker w = (Some p, w1)"
  shows "\<exists>h d'. add_holding upper yf created updated user_id ticker shares purchase_price d w
        = (Some h, d', w1)
    \<and> stock_holdings d' = stock_holdings d @ [h]
    \<and> users d' = users d
    \<and> h_ticker h = upper ticker
    \<and> h_shares h = shares
    \<and> h_purchase_price h = purchase_price
    \<and> h_user_id h = user_id
    \<and> h_id h \<noteq> None
    \<and> h_created_at h = created
    \<and> h_updated_at h = updated
    \<and> (db_ok d \<longrightarrow> db_ok d' \<and> (\<forall>r \<in> set (stock_holdings d). h_id r \<noteq> h_id h))"
proof -
  let ?h0 = "\<lparr>h_id = None, h_ticker = upper ticker, h_shares = shares,
    h_purchase_price = purchase_price, h_user_id = user_id, h_created_at = created,
    h_updated_at = updated\<rparr>"
  let ?h = "fst (session_add_holding ?h0 d)"
  let ?d = "snd (session_add_holding ?h0 d)"
  have ret: "add_holding upper yf created updated user_id ticker shares purchase_price d w
      = (Some ?h, ?d, w1)"
    using assms by (simp add: add_holding_def session_add_holding_eq)
  have fields: "stock_holdings ?d = stock_holdings d @ [?h]" "users ?d = users d"
    "h_ticker ?h = upper ticker" "h_shares ?h = shares" "h_purchase_price ?h = purchase_price"
    "h_user_id ?h = user_id" "h_id ?h \<noteq> None" "h_created_at ?h = created"
    "h_updated_at ?h = updated"
    by (simp_all add: session_add_holding_eq)
  have inv: "db_ok d \<longrightarrow> db_ok ?d \<and> (\<forall>r \<in> set (stock_holdings d). h_id r \<noteq> h_id ?h)"
  proof (intro impI conjI ballI)
    assume ok: "db_ok d"
    show "db_ok ?d"
      using ok by (rule db_ok_session_add_holding)
    fix r
    assume "r \<in> set (stock_holdings d)"
    then show "h_id r \<noteq> h_id ?h"
      using db_ok_holding_le [OF ok, of r] by (auto simp add: session_add_holding_eq)
  qed
  show ?thesis
    using ret fields inv by (intro exI [of _ ?h] exI [of _ ?d] conjI)
qed

theorem add_holding_persists_witness:
  "get_stock_price ascii_upper example_yf ''aapl'' 0 = (Some (Finite 160), 1)
   \<and> db_ok example_db
   \<and> (\<exists>h d'. add_holding ascii_upper example_yf 7 8 1 ''aapl'' (Finite 3) (Finite 155) example_db 0 = (Some h, d', 1)
        \<and> stock_holdings d' = stock_holdings example_db @ [h]
        \<and> users d' = users example_db
        \<and> h_ticker h = ''AAPL'' \<and> h_shares h = Finite 3 \<and> h_purchase_price h = Finite 155
        \<and> h_user_id h = 1 \<and> h_id h \<noteq> None \<and> h_created_at h = 7 \<and> h_updated_at h = 8
        \<and> db_ok d' \<and> h_id h \<notin> set (map h_id (stock_holdings example_db)))"
proof -
  have g: "get_stock_price ascii_upper example_yf ''aapl'' 0 = (Some (Finite 160), 1)"
    by (simp add: example_price_aapl)
  obtain h d' where
    r: "add_holding ascii_upper example_yf 7 8 1 ''aapl'' (Finite 3) (Finite 155) example_db 0 = (Some h, d', 1)"
    and rows: "stock_holdings d' = stock_holdings example_db @ [h]"
    and us: "users d' = users example_db"
    and t: "h_ticker h = ascii_upper ''aapl''"
    and f: "h_shares h = Finite 3" "h_purchase_price h = Finite 155" "h_user_id h = 1" "h_id h \<noteq> None"
      "h_created_at h = 7" "h_updated_at h = 8"
    and inv: "db_ok example_db \<longrightarrow>
      db_ok d' \<and> (\<forall>r \<in> set (stock_holdings example_db). h_id r \<noteq> h_id h)"
    using add_holding_persists [OF g, of 7 8 1 "Finite 3" "Finite 155" example_db] by blast
  have t': "h_ticker h = ''AAPL''"
    using t by (simp only: ascii_upper_aapl)
  have ok': "db_ok d'" and fresh: "\<forall>r \<in> set (stock_holdings example_db). h_id r \<noteq> h_id h"
    using inv example_db_ok by blast+
  have nf: "h_id h \<notin> set (map h_id (stock_holdings example_db))"
    using fresh by auto
  have "\<exists>h d'. add_holding ascii_upper example_yf 7 8 1 ''aapl'' (Finite 3) (Finite 155) example_db 0 = (Some h, d', 1)
        \<and> stock_holdings d' = stock_holdings example_db @ [h]
        \<and> users d' = users example_db
        \<and> h_ticker h = ''AAPL'' \<and> h_shares h = Finite 3 \<and> h_purchase_price h = Finite 155
        \<and> h_user_id h = 1 \<and> h_id h \<noteq> None \<and> h_created_at h = 7 \<and> h_updated_at h = 8
        \<and> db_ok d' \<and> h_id h \<notin> set (map h_id (stock_holdings example_db))"
    using r rows us t' f ok' nf by (intro exI [of _ h] exI [of _ d'] conjI)
  then show ?thesis
    using g example_db_ok by (intro conjI)
qed

section \<open>Deleting a holding\<close>

text \<open>
  C4. For every holding id, \<^verbatim>\<open>delete_holding\<close> returns true exactly when a holding with
  that id exists, and then no later lookup or listing has a holding with that id; when
  no holding with that id exists it returns false, raises nothing and leaves the store as
  it is.
\<close>

theorem delete_holding_result:
  "\<exists>d'. delete_holding holding_id d =
        ((\<exists>h \<in> set (stock_holdings d). h_id h = Some holding_id), d')
    \<and> ((\<exists>h \<in> set (stock_holdings d). h_id h = Some holding_id) \<longrightarrow>
         session_get_holding holding_id d' = None
         \<and> (\<forall>user_id. \<forall>h \<in> set (get_user_holdings user_id d'). h_id h \<noteq> Some holding_id))
    \<and> (\<not> (\<exists>h \<in> set (stock_holdings d). h_id h = Some holding_id) \<longrightarrow> d' = d)"
proof -
  let ?d = "d\<lparr>stock_holdings := filter (\<lambda>h. h_id h \<noteq> Some holding_id) (stock_holdings d)\<rparr>"
  have 0: "delete_holding holding_id d =
      ((\<exists>h \<in> set (stock_holdings d). h_id h = Some holding_id), ?d)"
    by (rule delete_holding_eq)
  have 1: "session_get_holding holding_id ?d = None"
    by (simp add: session_get_holding_def find_None_iff')
  have 2: "\<forall>user_id. \<forall>h \<in> set (get_user_holdings user_id ?d). h_id h \<noteq> Some holding_id"
    by (simp add: get_user_holdings_def exec_select_holdings_def)
  have 12: "(\<exists>h \<in> set (stock_holdings d). h_id h = Some holding_id) \<longrightarrow>
      session_get_holding holding_id ?d = None
      \<and> (\<forall>user_id. \<forall>h \<in> set (get_user_holdings user_id ?d). h_id h \<noteq> Some holding_id)"
    using 1 2 by (intro impI conjI)
  have 3: "\<not> (\<exists>h \<in> set (stock_holdings d). h_id h = Some holding_id) \<longrightarrow> ?d = d"
  proof
    assume "\<not> (\<exists>h \<in> set (stock_holdings d). h_id h = Some holding_id)"
    then have "filter (\<lambda>h. h_id h \<noteq> Some holding_id) (stock_holdings d) = stock_holdings d"
      by (simp add: filter_id_conv)
    then show "?d = d"
      by simp
  qed
  show ?thesis
    using 0 12 3 by (intro exI [of _ ?d] conjI)
qed

theorem delete_holding_result_witness:
  "fst (delete_holding 2 example_db)
   \<and> session_get_holding 2 (snd (delete_holding 2 example_db)) = None
   \<and> Some 2 \<notin> set (map h_id (get_user_holdings 1 (snd (delete_holding 2 example_db))))
   \<and> delete_holding 99 example_db = (False, example_db)"
proof -
  have yes: "\<exists>h \<in> set (stock_holdings example_db). h_id h = Some 2"
    by (simp add: example_db_def)
  have no: "\<not> (\<exists>h \<in> set (stock_holdings example_db). h_id h = Some 99)"
    by (simp add: example_db_def)
  obtain d' where r: "delete_holding 2 example_db = (True, d')"
    and g: "session_get_holding 2 d' = None"
    and l: "\<forall>user_id. \<forall>h \<in> set (get_user_holdings user_id d'). h_id h \<noteq> Some 2"
    using delete_holding_result [of 2 example_db] yes by auto
  have l': "Some 2 \<notin> set (map h_id (get_user_holdings 1 d'))"
  proof
    assume "Some 2 \<in> set (map h_id (get_user_holdings 1 d'))"
    then obtain x where "x \<in> set (get_user_holdings 1 d')" "h_id x = Some 2"
      by auto
    then show False
      using l by blast
  qed
  have r': "delete_holding 99 example_db = (False, example_db)"
    using delete_holding_result [of 99 example_db] no by auto
  show ?thesis
    using g l' r' by (simp add: r)
qed

text \<open>
  C9. For every store and holding id, \<^verbatim>\<open>delete_holding\<close> changes at most the holding with
  that id: the user table is unchanged and every other holding, of whichever user, stays in
  place. The deletion is keyed by the id alone: a holding with that id is removed whoever
  owns it.
\<close>

theorem delete_holding_frame:
  "users (snd (delete_holding holding_id d)) = users d
   \<and> users_id_seq (snd (delete_holding holding_id d)) = users_id_seq d
   \<and> stock_holdings (snd (delete_holding holding_id d)) =
       filter (\<lambda>h. h_id h \<noteq> Some holding_id) (stock_holdings d)
   \<and> (\<forall>h \<in> set (stock_holdings d). h_id h \<noteq> Some holding_id \<longrightarrow>
         h \<in> set (stock_holdings (snd (delete_holding holding_id d))))
   \<and> (\<forall>owner. \<forall>h \<in> set (get_user_holdings owner d). h_id h = Some holding_id \<longrightarrow>
         fst (delete_holding holding_id d)
         \<and> h \<notin> set (stock_holdings (snd (delete_holding holding_id d))))"
  by (auto simp add: delete_holding_eq get_user_holdings_def exec_select_holdings_def)

theorem delete_holding_frame_witness:
  "users (snd (delete_holding 3 example_db)) = users example_db
   \<and> fst (delete_holding 3 example_db)
   \<and> get_user_holdings 2 example_db \<noteq> []
   \<and> get_user_holdings 2 (snd (delete_holding 3 example_db)) = []
   \<and> get_user_holdings 1 (snd (delete_holding 3 example_db)) = get_user_holdings 1 example_db"
proof -
  let ?d = "snd (delete_holding 3 example_db)"
  let ?h3 = "\<lparr>h_id = Some 3, h_ticker = ''AAPL'', h_shares = Finite 1,
    h_purchase_price = Finite 1,
    h_user_id = 2, h_created_at = 4, h_updated_at = 4\<rparr>"
  from delete_holding_frame [of 3 example_db]
  have u: "users ?d = users example_db"
    and sh: "stock_holdings ?d = filter (\<lambda>h. h_id h \<noteq> Some 3) (stock_holdings example_db)"
    and own: "\<forall>owner. \<forall>h \<in> set (get_user_holdings owner example_db). h_id h = Some 3 \<longrightarrow>
       fst (delete_holding 3 example_db) \<and> h \<notin> set (stock_holdings ?d)"
    by blast+
  have g: "get_user_holdings 2 example_db = [?h3]"
    by (simp add: get_user_holdings_def exec_select_holdings_def example_db_def)
  then have "?h3 \<in> set (get_user_holdings 2 example_db)"
    by simp
  moreover have "h_id ?h3 = Some 3"
    by simp
  ultimately have f: "fst (delete_holding 3 example_db)"
    using own by blast
  have ne: "get_user_holdings 2 example_db \<noteq> []"
    by (simp add: g)
  have g2: "get_user_holdings 2 ?d = []"
    unfolding get_user_holdings_def exec_select_holdings_def sh by (simp add: example_db_def)
  have g1: "get_user_holdings 1 ?d = get_user_holdings 1 example_db"
    unfolding get_user_holdings_def exec_select_holdings_def sh by (simp add: example_db_def)
  show ?thesis
    using u f ne g2 g1 by (intro conjI)
qed

section \<open>The default user\<close>

text \<open>
  C6. \<^verbatim>\<open>get_or_create_default_user\<close> is idempotent: from any store, two consecutive calls
  return users with the same identity and the same email (the fixed one), and the second
  call leaves the store of the first as it is, so it creates no second user record.
\<close>

theorem default_user_idempotent:
  assumes "get_or_create_default_user now1 d = (user1, d1)"
    and "get_or_create_default_user now2 d1 = (user2, d2)"
  shows "u_id user2 = u_id user1 \<and> u_email user2 = u_email user1
    \<and> user2 = user1 \<and> d2 = d1 \<and> users d2 = users d1
    \<and> u_email user1 = ''user@portfolio.com''"
proof (cases "first (exec_select_users (\<lambda>u. u_email u = ''user@portfolio.com'') d)")
  case None
  let ?row = "\<lparr>u_id = Some (users_id_seq d + 1), u_name = ''Portfolio User'',
    u_email = ''user@portfolio.com'', u_is_active = True, u_created_at = now1\<rparr>"
  have e: "filter (\<lambda>u. u_email u = ''user@portfolio.com'') (users d) = []"
    using None unfolding exec_select_users_def by (rule first_filter_None)
  have "get_or_create_default_user now1 d =
      (?row, d\<lparr>users := users d @ [?row], users_id_seq := users_id_seq d + 1\<rparr>)"
    using None by (simp add: get_or_create_default_user_def session_add_user_def Let_def)
  then have u1: "user1 = ?row"
    and d1: "d1 = d\<lparr>users := users d @ [?row], users_id_seq := users_id_seq d + 1\<rparr>"
    using assms(1) by simp_all
  have "first (exec_select_users (\<lambda>u. u_email u = ''user@portfolio.com'') d1) = Some ?row"
    by (simp add: exec_select_users_def d1 e first_def)
  then have "get_or_create_default_user now2 d1 = (?row, d1)"
    by (simp add: get_or_create_default_user_def)
  then show ?thesis
    using assms(2) u1 by simp
next
  case (Some u)
  then have 1: "user1 = u" "d1 = d"
    using assms(1) by (simp_all add: get_or_create_default_user_def)
  then have "user2 = u" "d2 = d"
    using assms(2) Some by (simp_all add: get_or_create_default_user_def)
  moreover have "u_email u = ''user@portfolio.com''"
    using first_filter_Some [of "\<lambda>u. u_email u = ''user@portfolio.com''" "users d" u] Some
    by (simp add: exec_select_users_def)
  ultimately show ?thesis
    using 1 by simp
qed

theorem default_user_idempotent_witness:
  "\<exists>user1 d1. get_or_create_default_user 5 empty_db = (user1, d1)
     \<and> get_or_create_default_user 9 d1 = (user1, d1)
     \<and> u_id user1 = Some 1 \<and> u_email user1 = ''user@portfolio.com''
     \<and> length (users d1) = 1"
proof -
  let ?row = "\<lparr>u_id = Some 1, u_name = ''Portfolio User'', u_email = ''user@portfolio.com'',
    u_is_active = True, u_created_at = 5\<rparr>"
  let ?d1 = "\<lparr>users = [?row], stock_holdings = [], users_id_seq = 1, stock_holdings_id_seq = 0\<rparr>"
  have 1: "get_or_create_default_user 5 empty_db = (?row, ?d1)"
    by (simp add: get_or_create_default_user_def exec_select_users_def first_def empty_db_def
        session_add_user_def Let_def)
  obtain user2 d2 where 2: "get_or_create_default_user 9 ?d1 = (user2, d2)"
    by (cases "get_or_create_default_user 9 ?d1")
  have "user2 = ?row \<and> d2 = ?d1"
    using default_user_idempotent [OF 1 2] by simp
  then show ?thesis
    using 1 2 by simp
qed

section \<open>The quote lookup\<close>






section \<open>Facts about the loops of a valuation\<close>

lemma pow10_double:
  "(10::rat) powi h + 10 powi h < 10 powi (h + 1)"
proof -
  have "(10::rat) powi h + 10 powi h < 10 * 10 powi h"
    by simp
  also have "\<dots> = 10 powi (h + 1)"
    by (simp add: power_int_add)
  finally show ?thesis .
qed

lemma dec_add_bounded:
  assumes "\<bar>x\<bar> \<le> 10 powi h" "\<bar>y\<bar> \<le> 10 powi h" "Etiny \<le> h + 1" "h + 1 \<le> Emax"
  shows "\<exists>r. dec_add (Finite x) (Finite y) = Inr (Finite r) \<and> \<bar>r\<bar> \<le> 10 powi (h + 1)"
proof -
  have "\<bar>x + y\<bar> \<le> \<bar>x\<bar> + \<bar>y\<bar>"
    by simp
  also have "\<dots> \<le> 10 powi h + 10 powi h"
    using assms(1,2) by simp
  also have "\<dots> < 10 powi (h + 1)"
    by (rule pow10_double)
  finally have "\<bar>x + y\<bar> < 10 powi (h + 1)" .
  then show ?thesis
    using dec_fix_bounded [OF _ assms(3,4), of "x + y"] by simp
qed

lemma dec_sub_bounded:
  assumes "\<bar>x\<bar> \<le> 10 powi h" "\<bar>y\<bar> \<le> 10 powi h" "Etiny \<le> h + 1" "h + 1 \<le> Emax"
  shows "\<exists>r. dec_sub (Finite x) (Finite y) = Inr (Finite r) \<and> \<bar>r\<bar> \<le> 10 powi (h + 1)"
proof -
  have "\<bar>x - y\<bar> \<le> \<bar>x\<bar> + \<bar>y\<bar>"
    by simp
  also have "\<dots> \<le> 10 powi h + 10 powi h"
    using assms(1,2) by simp
  also have "\<dots> < 10 powi (h + 1)"
    by (rule pow10_double)
  finally have "\<bar>x - y\<bar> < 10 powi (h + 1)" .
  then show ?thesis
    using dec_fix_bounded [OF _ assms(3,4), of "x - y"] by simp
qed

lemma dec_add_lower:
  assumes r: "dec_add (Finite x) (Finite y) = Inr (Finite r)"
    and x: "x = 0 \<or> 10 powi l \<le> x" and y: "y = 0 \<or> 10 powi l \<le> y"
    and l: "Emin \<le> l"
  shows "r = 0 \<or> 10 powi l \<le> r"
proof (cases "x + y = 0")
  case True
  then have "dec_add (Finite x) (Finite y) = Inr (Finite 0)"
    unfolding dec_add.simps by (simp only: dec_fix_zero)
  then show ?thesis
    using r by simp
next
  case False
  have p: "(0::rat) < 10 powi l"
    by simp
  have x0: "0 \<le> x"
    using x p by (elim disjE) linarith+
  have y0: "0 \<le> y"
    using y p by (elim disjE) linarith+
  have "10 powi l \<le> x + y"
    using x y False x0 y0 by (elim disjE) linarith+
  moreover have "dec_fix (x + y) = Inr (Finite r)"
    using r by simp
  ultimately have "10 powi l \<le> r"
    using l by (intro dec_fix_lower [of "x + y" r l])
  then show ?thesis ..
qed

lemma dec_mul_moderate:
  assumes "nonneg_moderate x" "nonneg_moderate y"
  shows "\<exists>a b pv. x = Finite a \<and> y = Finite b
    \<and> dec_mul x y = Inr (Finite pv)
    \<and> \<bar>pv\<bar> \<le> 10 powi (2 * money_exp)
    \<and> (pv = 0 \<or> 10 powi (- (2 * money_exp)) \<le> pv)"
proof -
  obtain a where a: "x = Finite a" "0 \<le> a" "moderate a"
    using assms(1) by (cases x) simp_all
  obtain b where b: "y = Finite b" "0 \<le> b" "moderate b"
    using assms(2) by (cases y) simp_all
  obtain pv where pv: "dec_fix (a * b) = Inr (Finite pv)"
    and pvb: "\<bar>pv\<bar> \<le> 10 powi (2 * money_exp)"
    using dec_fix_bounded [OF moderate_product [OF a(3) b(3)] money_limits(3) money_limits(7)]
    by auto
  have low: "pv = 0 \<or> 10 powi (- (2 * money_exp)) \<le> pv"
  proof (cases "a * b = 0")
    case True
    then have "dec_fix (a * b) = Inr (Finite 0)"
      by (simp only: dec_fix_zero)
    then show ?thesis
      using pv by simp
  next
    case False
    then have lb: "10 powi (- (2 * money_exp)) \<le> a * b"
      by (rule moderate_product_lower [OF a(3) b(3) a(2) b(2)])
    have "10 powi (- (2 * money_exp)) \<le> pv"
      by (rule dec_fix_lower [OF pv lb money_limits(2)])
    then show ?thesis ..
  qed
  show ?thesis
    using a(1) b(1) pv pvb low by simp
qed

lemma dec_mul_bounded:
  assumes "nonneg_moderate x" "moderate c"
  shows "\<exists>cv. dec_mul x (Finite c) = Inr cv \<and> bounded_by (2 * money_exp) cv"
proof -
  obtain a where a: "x = Finite a" "moderate a"
    using assms(1) by (cases x) simp_all
  obtain cv where "dec_fix (a * c) = Inr (Finite cv)" "\<bar>cv\<bar> \<le> 10 powi (2 * money_exp)"
    using dec_fix_bounded [OF moderate_product [OF a(2) assms(2)] money_limits(3) money_limits(7)]
    by auto
  then show ?thesis
    using a(1) by simp
qed

text \<open>The guarded percentage of a bounded difference and a total that is not too small.\<close>

lemma percent_bounded:
  assumes g: "\<bar>g\<bar> \<le> 10 powi n" and t: "10 powi (- l) \<le> t"
    and lo: "Etiny \<le> n + l + 1" and hi: "n + l + 4 \<le> Emax"
  shows "\<exists>q r. dec_div (Finite g) (Finite t) = Inr (Finite q)
    \<and> dec_mul (Finite q) (Finite 100) = Inr (Finite r)"
proof -
  have p: "(0::rat) < 10 powi (- l)"
    by simp
  then have tpos: "0 < t"
    using t by linarith
  then have t0: "t \<noteq> 0"
    by simp
  have "\<bar>g / t\<bar> = \<bar>g\<bar> / t"
    using tpos by simp
  also have "\<dots> \<le> 10 powi n / t"
    using g tpos by (simp add: divide_right_mono)
  also have "\<dots> \<le> 10 powi n / 10 powi (- l)"
    using t tpos by (intro divide_left_mono) simp_all
  also have "\<dots> = (10::rat) powi (n + l)"
  proof -
    have "(10::rat) powi (n + l) * 10 powi (- l) = 10 powi (n + l + - l)"
      by (rule power_int_add [symmetric]) simp
    also have "n + l + - l = n"
      by simp
    finally have "(10::rat) powi (n + l) * 10 powi (- l) = 10 powi n" .
    then show ?thesis
      using p by (rule divide_eqI)
  qed
  also have "\<dots> < 10 powi (n + l + 1)"
    by (rule power_int_strict_increasing) simp_all
  finally have "\<bar>g / t\<bar> < 10 powi (n + l + 1)" .
  moreover have "n + l + 1 \<le> Emax"
    using hi by simp
  ultimately obtain q where q: "dec_div (Finite g) (Finite t) = Inr (Finite q)"
    and qb: "\<bar>q\<bar> \<le> 10 powi (n + l + 1)"
    using dec_fix_bounded [OF _ lo, of "g / t"] t0 by auto
  have "\<bar>q * 100\<bar> = \<bar>q\<bar> * 10 powi 2"
    by (simp add: abs_mult)
  also have "\<dots> \<le> 10 powi (n + l + 1) * 10 powi 2"
    using qb by (intro mult_right_mono) simp_all
  also have "\<dots> = (10::rat) powi (n + l + 1 + 2)"
    by (rule power_int_add [symmetric]) simp
  also have "\<dots> < 10 powi (n + l + 4)"
    by (rule power_int_strict_increasing) simp_all
  finally have "\<bar>q * 100\<bar> < 10 powi (n + l + 4)" .
  moreover have "Etiny \<le> n + l + 4"
    using lo by simp
  ultimately obtain r where "dec_mul (Finite q) (Finite 100) = Inr (Finite r)"
    using dec_fix_bounded [OF _ _ hi, of "q * 100"] by auto
  then show ?thesis
    using q by blast
qed

text \<open>The views that the pricing loop returns are those of the priced holdings, in order.\<close>

lemma price_holdings_InrD:
  "price_holdings upper yf hs acc w = (Inr vs, w') \<Longrightarrow>
   \<exists>vs'. vs = acc @ vs'
     \<and> list_all2 (\<lambda>(h, p) v. from_holding h p = Inr v) (priced (quotes upper yf hs w)) vs'"
proof (induction hs arbitrary: acc w)
  case Nil
  then show ?case by simp
next
  case (Cons h hs)
  obtain r w1 where g: "get_stock_price upper yf (h_ticker h) w = (r, w1)"
    by (cases "get_stock_price upper yf (h_ticker h) w")
  show ?case
  proof (cases r)
    case None
    then have "price_holdings upper yf hs acc w1 = (Inr vs, w')"
      using Cons.prems g by simp
    then show ?thesis
      using Cons.IH [of acc w1] g None by simp
  next
    case (Some p)
    show ?thesis
    proof (cases "from_holding h p")
      case (Inl e)
      then show ?thesis
        using Cons.prems g Some by simp
    next
      case (Inr v)
      then have "price_holdings upper yf hs (acc @ [v]) w1 = (Inr vs, w')"
        using Cons.prems g Some by simp
      then obtain vs' where "vs = (acc @ [v]) @ vs'"
        and "list_all2 (\<lambda>(h, p) v. from_holding h p = Inr v) (priced (quotes upper yf hs w1)) vs'"
        using Cons.IH [of "acc @ [v]" w1] by blast
      then show ?thesis
        using g Some Inr by simp
    qed
  qed
qed

text \<open>The two totals of the summing loop are the sums of the spec.\<close>

lemma sum_holdings_InrD:
  "sum_holdings vs x y = Inr (X, Y) \<Longrightarrow>
   dec_sum_from x (map v_current_value vs) = Inr X
   \<and> (\<exists>pvs. list_all2 (\<lambda>v pv. dec_mul (v_shares v) (v_purchase_price v) = Inr pv) vs pvs
        \<and> dec_sum_from y pvs = Inr Y)"
proof (induction vs arbitrary: x y)
  case Nil
  then show ?case by simp
next
  case (Cons v vs)
  from Cons.prems obtain x' pv y' where x': "dec_add x (v_current_value v) = Inr x'"
    and pv: "dec_mul (v_shares v) (v_purchase_price v) = Inr pv"
    and y': "dec_add y pv = Inr y'"
    and rest: "sum_holdings vs x' y' = Inr (X, Y)"
    by (auto split: sum.splits)
  from Cons.IH [OF rest] obtain pvs where
    1: "dec_sum_from x' (map v_current_value vs) = Inr X"
    and 2: "list_all2 (\<lambda>v pv. dec_mul (v_shares v) (v_purchase_price v) = Inr pv) vs pvs"
    and 3: "dec_sum_from y' pvs = Inr Y"
    by blast
  have a: "dec_sum_from x (map v_current_value (v # vs)) = Inr X"
    using x' 1 by simp
  have b: "list_all2 (\<lambda>v pv. dec_mul (v_shares v) (v_purchase_price v) = Inr pv)
      (v # vs) (pv # pvs)"
    using pv 2 by simp
  have c: "dec_sum_from y (pv # pvs) = Inr Y"
    using y' 3 by simp
  show ?case
    using a b c by blast
qed

text \<open>What a returned summary says of the steps of \<^verbatim>\<open>get_portfolio_summary\<close>.\<close>

lemma get_portfolio_summary_InrD:
  assumes "get_portfolio_summary upper yf user_id d w = (Inr s, w')"
  shows "\<exists>vs. get_holdings_with_prices upper yf user_id d w = (Inr vs, w')
    \<and> sum_holdings vs (Finite 0) (Finite 0) =
        Inr (s_total_current_value s, s_total_purchase_value s)
    \<and> dec_sub (s_total_current_value s) (s_total_purchase_value s) = Inr (s_total_gain_loss s)
    \<and> (dec_gt_zero (s_total_purchase_value s) = Inr True \<longrightarrow>
         (\<exists>q. dec_div (s_total_gain_loss s) (s_total_purchase_value s) = Inr q
            \<and> dec_mul q (Finite 100) = Inr (s_total_gain_loss_percent s)))
    \<and> (dec_gt_zero (s_total_purchase_value s) = Inr False \<longrightarrow>
         s_total_gain_loss_percent s = Finite 0)
    \<and> s_holdings_count s = int (length vs)
    \<and> is_finite (s_total_purchase_value s)"
  using assms
  by (auto simp add: get_portfolio_summary_def PortfolioSummary_def
      split: prod.splits sum.splits bool.splits if_splits)

lemma list_all2_views_purchase:
  assumes "list_all2 (\<lambda>(h, p) v. from_holding h p = Inr v) qs vs"
    and "list_all2 (\<lambda>v pv. dec_mul (v_shares v) (v_purchase_price v) = Inr pv) vs pvs"
  shows "list_all2 (\<lambda>(h, p) pv. dec_mul (h_shares h) (h_purchase_price h) = Inr pv) qs pvs"
proof (rule list_all2_trans [OF _ assms])
  fix a :: "stock_holding \<times> decimal" and v pv
  assume 1: "(case a of (h, p) \<Rightarrow> \<lambda>v. from_holding h p = Inr v) v"
    and 2: "dec_mul (v_shares v) (v_purchase_price v) = Inr pv"
  obtain h p where a: "a = (h, p)"
    by (cases a)
  then have "from_holding h p = Inr v"
    using 1 by simp
  then have "v_shares v = h_shares h" "v_purchase_price v = h_purchase_price h"
    by (rule from_holding_InrD(3), rule from_holding_InrD(4))
  then show "(case a of (h, p) \<Rightarrow> \<lambda>pv. dec_mul (h_shares h) (h_purchase_price h) = Inr pv) pv"
    using 2 a by simp
qed

text \<open>Holdings in range with quotes in range give views in range, and no exception.\<close>

lemma from_holding_in_range:
  assumes "h_id h = Some i" "holding_in_range h" "moderate c"
  shows "\<exists>v. from_holding h (Finite c) = Inr v \<and> view_in_range v"
proof -
  obtain a where a: "h_shares h = Finite a" "0 \<le> a" "moderate a"
    using assms(2) by (cases "h_shares h") (simp_all add: holding_in_range_def)
  obtain b where b: "h_purchase_price h = Finite b" "0 \<le> b" "moderate b"
    using assms(2) by (cases "h_purchase_price h") (simp_all add: holding_in_range_def)
  obtain v where v: "from_holding h (Finite c) = Inr v"
    using from_holding_moderate [OF assms(1) a(1) b(1) a(2) b(2) a(3) b(3) assms(3)] by blast
  have s: "v_shares v = h_shares h" "v_purchase_price v = h_purchase_price h"
    using v by (rule from_holding_InrD(3), rule from_holding_InrD(4))
  have "nonneg_moderate (h_shares h)"
    using assms(2) by (simp add: holding_in_range_def)
  then obtain cv where "dec_mul (h_shares h) (Finite c) = Inr cv" "bounded_by (2 * money_exp) cv"
    using dec_mul_bounded [OF _ assms(3)] by blast
  then have "bounded_by (2 * money_exp) (v_current_value v)"
    using from_holding_InrD(8) [OF v] by simp
  then have "view_in_range v"
    using assms(2) s by (simp add: view_in_range_def holding_in_range_def)
  then show ?thesis
    using v by blast
qed

lemma price_holdings_in_range:
  assumes "\<forall>h \<in> set hs. h_id h \<noteq> None"
    and "list_all holding_in_range hs"
    and "list_all (\<lambda>(h, r). moderate_quote r) (quotes upper yf hs w)"
    and "list_all view_in_range acc"
  shows "\<exists>vs w'. price_holdings upper yf hs acc w = (Inr vs, w')
    \<and> list_all view_in_range vs \<and> length vs \<le> length acc + length hs"
  using assms
proof (induction hs arbitrary: acc w)
  case Nil
  then show ?case by simp
next
  case (Cons h hs)
  obtain r w1 where g: "get_stock_price upper yf (h_ticker h) w = (r, w1)"
    by (cases "get_stock_price upper yf (h_ticker h) w")
  have ids: "\<forall>h \<in> set hs. h_id h \<noteq> None" and rng: "list_all holding_in_range hs"
    and q: "list_all (\<lambda>(h, r). moderate_quote r) (quotes upper yf hs w1)"
    and mq: "moderate_quote r"
    using Cons.prems g by simp_all
  show ?case
  proof (cases r)
    case None
    obtain vs w' where "price_holdings upper yf hs acc w1 = (Inr vs, w')"
      "list_all view_in_range vs" "length vs \<le> length acc + length hs"
      using Cons.IH [OF ids rng q Cons.prems(4)] by blast
    then show ?thesis
      using g None by simp
  next
    case (Some p)
    then obtain c where c: "p = Finite c" "moderate c"
      using mq by (cases p) simp_all
    obtain i where i: "h_id h = Some i"
      using Cons.prems(1) by auto
    have hr: "holding_in_range h"
      using Cons.prems(2) by simp
    obtain v where v: "from_holding h (Finite c) = Inr v" "view_in_range v"
      using from_holding_in_range [OF i hr c(2)] by blast
    have acc': "list_all view_in_range (acc @ [v])"
      using Cons.prems(4) v(2) by simp
    obtain vs w' where "price_holdings upper yf hs (acc @ [v]) w1 = (Inr vs, w')"
      "list_all view_in_range vs" "length vs \<le> length (acc @ [v]) + length hs"
      using Cons.IH [OF ids rng q acc'] by blast
    then show ?thesis
      using g Some c(1) v(1) by simp
  qed
qed

lemma sum_holdings_in_range:
  assumes "list_all view_in_range vs"
    and "\<bar>x\<bar> \<le> 10 powi (2 * money_exp + k)"
    and "\<bar>y\<bar> \<le> 10 powi (2 * money_exp + k)"
    and "y = 0 \<or> 10 powi (- (2 * money_exp)) \<le> y"
    and "0 \<le> k"
    and "k + int (length vs) \<le> 100000"
  shows "\<exists>X Y. sum_holdings vs (Finite x) (Finite y) = Inr (Finite X, Finite Y)
    \<and> \<bar>X\<bar> \<le> 10 powi (2 * money_exp + k + int (length vs))
    \<and> \<bar>Y\<bar> \<le> 10 powi (2 * money_exp + k + int (length vs))
    \<and> (Y = 0 \<or> 10 powi (- (2 * money_exp)) \<le> Y)"
  using assms
proof (induction vs arbitrary: x y k)
  case Nil
  then show ?case by simp
next
  case (Cons v vs)
  let ?h = "2 * money_exp + k"
  have lim: "Etiny \<le> ?h + 1" "?h + 1 \<le> Emax"
    using Cons.prems(5,6) by (simp_all add: money_exp_def Etiny_def Emin_def Emax_def prec_def)
  have up: "(10::rat) powi (2 * money_exp) \<le> 10 powi ?h"
    using Cons.prems(5) by (intro power_int_increasing) simp_all
  have vr: "view_in_range v" and vsr: "list_all view_in_range vs"
    using Cons.prems(1) by simp_all
  obtain cv where cv: "v_current_value v = Finite cv" "\<bar>cv\<bar> \<le> 10 powi (2 * money_exp)"
    using vr by (cases "v_current_value v") (simp_all add: view_in_range_def)
  have cvb: "\<bar>cv\<bar> \<le> 10 powi ?h"
    using cv(2) up by (rule order_trans)
  obtain x' where x': "dec_add (Finite x) (Finite cv) = Inr (Finite x')"
    and x'b: "\<bar>x'\<bar> \<le> 10 powi (?h + 1)"
    using dec_add_bounded [OF Cons.prems(2) cvb lim] by blast
  obtain pv where pv: "dec_mul (v_shares v) (v_purchase_price v) = Inr (Finite pv)"
    and pvb: "\<bar>pv\<bar> \<le> 10 powi (2 * money_exp)"
    and pvl: "pv = 0 \<or> 10 powi (- (2 * money_exp)) \<le> pv"
    using vr dec_mul_moderate [of "v_shares v" "v_purchase_price v"]
    by (auto simp add: view_in_range_def)
  have pvb': "\<bar>pv\<bar> \<le> 10 powi ?h"
    using pvb up by (rule order_trans)
  obtain y' where y': "dec_add (Finite y) (Finite pv) = Inr (Finite y')"
    and y'b: "\<bar>y'\<bar> \<le> 10 powi (?h + 1)"
    using dec_add_bounded [OF Cons.prems(3) pvb' lim] by blast
  have y'l: "y' = 0 \<or> 10 powi (- (2 * money_exp)) \<le> y'"
    using y' Cons.prems(4) pvl money_limits(2) by (rule dec_add_lower)
  have e: "?h + 1 = 2 * money_exp + (k + 1)"
    by simp
  have k': "0 \<le> k + 1" "k + 1 + int (length vs) \<le> 100000"
    using Cons.prems(5,6) by simp_all
  obtain X Y where r: "sum_holdings vs (Finite x') (Finite y') = Inr (Finite X, Finite Y)"
    and Xb: "\<bar>X\<bar> \<le> 10 powi (2 * money_exp + (k + 1) + int (length vs))"
    and Yb: "\<bar>Y\<bar> \<le> 10 powi (2 * money_exp + (k + 1) + int (length vs))"
    and Yl: "Y = 0 \<or> 10 powi (- (2 * money_exp)) \<le> Y"
    using Cons.IH [OF vsr x'b [unfolded e] y'b [unfolded e] y'l k'] by blast
  have e2: "2 * money_exp + (k + 1) + int (length vs) = 2 * money_exp + k + int (length (v # vs))"
    by simp
  have "sum_holdings (v # vs) (Finite x) (Finite y) = Inr (Finite X, Finite Y)"
    using x' pv y' r by (simp add: cv(1))
  then show ?case
    using Xb Yb Yl unfolding e2 by blast
qed

lemma get_portfolio_summary_in_range:
  assumes ok: "db_ok d"
    and len: "length (get_user_holdings user_id d) \<le> 100000"
    and rng: "list_all holding_in_range (get_user_holdings user_id d)"
    and q: "list_all (\<lambda>(h, r). moderate_quote r)
      (quotes upper yf (get_user_holdings user_id d) w)"
  shows "\<exists>s w'. get_portfolio_summary upper yf user_id d w = (Inr s, w')"
proof -
  let ?B = money_exp
  have nil: "list_all view_in_range []"
    by simp
  obtain vs w' where vs: "price_holdings upper yf (get_user_holdings user_id d) [] w = (Inr vs, w')"
    and vr: "list_all view_in_range vs"
    and vl: "length vs \<le> length (get_user_holdings user_id d)"
    using price_holdings_in_range [OF db_ok_holding_ids [OF ok] rng q nil] by auto
  define n where "n = int (length vs)"
  have n: "0 \<le> n" "n \<le> 100000"
    using vl len by (simp_all add: n_def)
  have z: "\<bar>0::rat\<bar> \<le> 10 powi (2 * ?B + 0)" "(0::rat) = 0 \<or> 10 powi (- (2 * ?B)) \<le> (0::rat)"
    by simp_all
  have k: "(0::int) \<le> 0" "0 + int (length vs) \<le> 100000"
    using n by (simp_all add: n_def)
  obtain X Y where s: "sum_holdings vs (Finite 0) (Finite 0) = Inr (Finite X, Finite Y)"
    and Xb: "\<bar>X\<bar> \<le> 10 powi (2 * ?B + 0 + int (length vs))"
    and Yb: "\<bar>Y\<bar> \<le> 10 powi (2 * ?B + 0 + int (length vs))"
    and Yl: "Y = 0 \<or> 10 powi (- (2 * ?B)) \<le> Y"
    using sum_holdings_in_range [OF vr z(1) z(1) z(2) k] by blast
  have e: "2 * ?B + 0 + int (length vs) = 2 * ?B + n"
    by (simp add: n_def)
  have lim: "Etiny \<le> 2 * ?B + n + 1" "2 * ?B + n + 1 \<le> Emax"
    "Etiny \<le> 2 * ?B + n + 1 + 2 * ?B + 1" "2 * ?B + n + 1 + 2 * ?B + 4 \<le> Emax"
    using n by (simp_all add: money_exp_def Etiny_def Emin_def Emax_def prec_def)
  obtain G where G: "dec_sub (Finite X) (Finite Y) = Inr (Finite G)"
    and Gb: "\<bar>G\<bar> \<le> 10 powi (2 * ?B + n + 1)"
    using dec_sub_bounded [OF Xb [unfolded e] Yb [unfolded e] lim(1,2)] by blast
  note defs = get_portfolio_summary_def get_holdings_with_prices_def PortfolioSummary_def
  show ?thesis
  proof (cases "0 < Y")
    case True
    then have "10 powi (- (2 * ?B)) \<le> Y"
      using Yl by auto
    then obtain q r where "dec_div (Finite G) (Finite Y) = Inr (Finite q)"
      "dec_mul (Finite q) (Finite 100) = Inr (Finite r)"
      using percent_bounded [OF Gb _ lim(3,4)] by blast
    then show ?thesis
      using vs s G True by (simp add: defs)
  next
    case False
    then show ?thesis
      using vs s G by (simp add: defs)
  qed
qed

lemma get_portfolio_summary_empty:
  assumes "get_user_holdings user_id d = []"
  shows "get_portfolio_summary upper yf user_id d w =
    (Inr \<lparr>s_total_current_value = Finite 0, s_total_purchase_value = Finite 0,
          s_total_gain_loss = Finite 0, s_total_gain_loss_percent = Finite 0,
          s_holdings_count = 0\<rparr>, w)"
  using assms
  by (simp add: get_portfolio_summary_def get_holdings_with_prices_def PortfolioSummary_def
      dec_fix_zero)

lemma moderate_small:
  assumes "1 \<le> \<bar>x\<bar>" "\<bar>x\<bar> < 1000000"
  shows "moderate x"
proof -
  have "(10::rat) powi (- money_exp) \<le> 10 powi 0"
    by (rule power_int_increasing) (simp_all add: money_exp_def)
  then have lo: "10 powi (- money_exp) \<le> \<bar>x\<bar>"
    using assms(1) by simp
  have "(10::rat) powi 6 \<le> 10 powi money_exp"
    by (rule power_int_increasing) (simp_all add: money_exp_def)
  moreover have "\<bar>x\<bar> < 10 powi 6"
    using assms(2) by simp
  ultimately have "\<bar>x\<bar> < 10 powi money_exp"
    by (rule less_le_trans [rotated])
  then show ?thesis
    using lo by (simp add: moderate_def)
qed

lemma example_holdings_1:
  "get_user_holdings 1 example_db =
     [\<lparr>h_id = Some 1, h_ticker = ''AAPL'', h_shares = Finite 10, h_purchase_price = Finite 150,
       h_user_id = 1, h_created_at = 2, h_updated_at = 2\<rparr>,
      \<lparr>h_id = Some 2, h_ticker = ''ZZZZ'', h_shares = Finite 5, h_purchase_price = Finite 20,
       h_user_id = 1, h_created_at = 3, h_updated_at = 3\<rparr>]"
  by (simp add: get_user_holdings_def exec_select_holdings_def example_db_def)

lemma example_holdings_3:
  "get_user_holdings 3 example_db =
     [\<lparr>h_id = Some 4, h_ticker = ''AAPL'', h_shares = Finite (- 10),
       h_purchase_price = Finite 150, h_user_id = 3, h_created_at = 5, h_updated_at = 5\<rparr>]"
  by (simp add: get_user_holdings_def exec_select_holdings_def example_db_def)

lemma example_quotes_1:
  "quotes ascii_upper example_yf (get_user_holdings 1 example_db) 0 =
     [(\<lparr>h_id = Some 1, h_ticker = ''AAPL'', h_shares = Finite 10, h_purchase_price = Finite 150,
        h_user_id = 1, h_created_at = 2, h_updated_at = 2\<rparr>, Some (Finite 160)),
      (\<lparr>h_id = Some 2, h_ticker = ''ZZZZ'', h_shares = Finite 5, h_purchase_price = Finite 20,
        h_user_id = 1, h_created_at = 3, h_updated_at = 3\<rparr>, None)]"
  by (simp add: example_holdings_1 example_price_AAPL example_price_ZZZZ)

lemma example_in_range_1: "list_all holding_in_range (get_user_holdings 1 example_db)"
proof -
  have "moderate 10" "moderate 150" "moderate 5" "moderate 20"
    by (rule moderate_small, simp, simp)+
  then show ?thesis
    by (simp add: example_holdings_1 holding_in_range_def)
qed

lemma example_quotes_in_range_1:
  "list_all (\<lambda>(h, r). moderate_quote r)
     (quotes ascii_upper example_yf (get_user_holdings 1 example_db) 0)"
proof -
  have "moderate 160"
    by (rule moderate_small) simp_all
  then show ?thesis
    by (simp add: example_quotes_1)
qed

lemma dec_sum_single: "dec_sum [Finite x] = dec_fix x"
  by (simp add: dec_sum_def dec_fix_def split: sum.splits)

lemma example_from_holding_4:
  "from_holding
     \<lparr>h_id = Some 4, h_ticker = ''AAPL'', h_shares = Finite (- 10),
      h_purchase_price = Finite 150, h_user_id = 3, h_created_at = 5, h_updated_at = 5\<rparr>
     (Finite 160) =
   Inr \<lparr>v_id = 4, v_ticker = ''AAPL'', v_shares = Finite (- 10),
        v_purchase_price = Finite 150, v_current_price = Finite 160,
        v_current_value = Finite (- 1600), v_gain_loss = Finite (- 100),
        v_gain_loss_percent = Finite 0, v_created_at = 5, v_updated_at = 5\<rparr>"
  using dec_fix_of_int [of "- 1600"] dec_fix_of_int [of "- 1500"] dec_fix_of_int [of "- 100"]
  by (simp add: from_holding_def h_total_purchase_value_def HoldingWithCurrentPrice_def)

lemma example_summary_3:
  "get_portfolio_summary ascii_upper example_yf 3 example_db 0 =
     (Inr \<lparr>s_total_current_value = Finite (- 1600), s_total_purchase_value = Finite (- 1500),
           s_total_gain_loss = Finite (- 100), s_total_gain_loss_percent = Finite 0,
           s_holdings_count = 1\<rparr>, 1)"
proof -
  have p: "get_holdings_with_prices ascii_upper example_yf 3 example_db 0 =
     (Inr [\<lparr>v_id = 4, v_ticker = ''AAPL'', v_shares = Finite (- 10),
        v_purchase_price = Finite 150, v_current_price = Finite 160,
        v_current_value = Finite (- 1600), v_gain_loss = Finite (- 100),
        v_gain_loss_percent = Finite 0, v_created_at = 5, v_updated_at = 5\<rparr>], 1)"
    by (simp add: get_holdings_with_prices_def example_holdings_3 example_price_AAPL
        example_from_holding_4)
  show ?thesis
    using dec_fix_of_int [of "- 1600"] dec_fix_of_int [of "- 1500"] dec_fix_of_int [of "- 100"]
    by (simp add: get_portfolio_summary_def p PortfolioSummary_def)
qed

section \<open>The portfolio summary\<close>

text \<open>
  C2 (amended). For every user id, a summary that \<^verbatim>\<open>get_portfolio_summary\<close> returns has
  these fields: the views are those of exactly the holdings whose quote lookup succeeded
  (the lookups threaded through the provider state, in order), the total current value is
  the sum of their current values, the total purchase value is the sum of
  \<open>shares * purchase_price\<close> over them, the total gain/loss is the difference of the two,
  the percentage is that difference divided by the total purchase value times 100 when the
  total purchase value is positive and exactly 0 when it is zero or negative, and the count
  is the number of priced holdings. The operations are those of Decimal. A summary is
  returned, and nothing is raised, in a store whose rows have their keys when the user has
  at most 100000 holdings, their shares and purchase prices are finite numbers of moderate
  size and not negative, and every quote found is a finite number of moderate size. For a
  user with no holdings every field is zero.
\<close>

theorem portfolio_summary_totals:
  "(get_portfolio_summary upper yf user_id d w = (Inr s, w') \<longrightarrow>
      (\<exists>vs pvs t.
          get_holdings_with_prices upper yf user_id d w = (Inr vs, w')
        \<and> list_all2 (\<lambda>(h, p) v. from_holding h p = Inr v)
            (priced (quotes upper yf (get_user_holdings user_id d) w)) vs
        \<and> list_all2 (\<lambda>(h, p) pv. dec_mul (h_shares h) (h_purchase_price h) = Inr pv)
            (priced (quotes upper yf (get_user_holdings user_id d) w)) pvs
        \<and> dec_sum (map v_current_value vs) = Inr (s_total_current_value s)
        \<and> dec_sum pvs = Inr (s_total_purchase_value s)
        \<and> dec_sub (s_total_current_value s) (s_total_purchase_value s)
            = Inr (s_total_gain_loss s)
        \<and> s_total_purchase_value s = Finite t
        \<and> (0 < t \<longrightarrow>
            (\<exists>q. dec_div (s_total_gain_loss s) (s_total_purchase_value s) = Inr q
               \<and> dec_mul q (Finite 100) = Inr (s_total_gain_loss_percent s)))
        \<and> (t \<le> 0 \<longrightarrow> s_total_gain_loss_percent s = Finite 0)
        \<and> s_holdings_count s =
            int (length (priced (quotes upper yf (get_user_holdings user_id d) w)))))
   \<and> (db_ok d
        \<and> length (get_user_holdings user_id d) \<le> 100000
        \<and> list_all holding_in_range (get_user_holdings user_id d)
        \<and> list_all (\<lambda>(h, r). moderate_quote r)
            (quotes upper yf (get_user_holdings user_id d) w) \<longrightarrow>
      (\<exists>s w'. get_portfolio_summary upper yf user_id d w = (Inr s, w')))
   \<and> (get_user_holdings user_id d = [] \<longrightarrow>
      get_portfolio_summary upper yf user_id d w =
        (Inr \<lparr>s_total_current_value = Finite 0, s_total_purchase_value = Finite 0,
              s_total_gain_loss = Finite 0, s_total_gain_loss_percent = Finite 0,
              s_holdings_count = 0\<rparr>, w))"
proof (intro conjI impI)
  assume r: "get_portfolio_summary upper yf user_id d w = (Inr s, w')"
  let ?P = "priced (quotes upper yf (get_user_holdings user_id d) w)"
  obtain vs where vs: "get_holdings_with_prices upper yf user_id d w = (Inr vs, w')"
    and sums: "sum_holdings vs (Finite 0) (Finite 0) =
        Inr (s_total_current_value s, s_total_purchase_value s)"
    and gl: "dec_sub (s_total_current_value s) (s_total_purchase_value s)
        = Inr (s_total_gain_loss s)"
    and pos: "dec_gt_zero (s_total_purchase_value s) = Inr True \<longrightarrow>
         (\<exists>q. dec_div (s_total_gain_loss s) (s_total_purchase_value s) = Inr q
            \<and> dec_mul q (Finite 100) = Inr (s_total_gain_loss_percent s))"
    and neg: "dec_gt_zero (s_total_purchase_value s) = Inr False \<longrightarrow>
         s_total_gain_loss_percent s = Finite 0"
    and cnt: "s_holdings_count s = int (length vs)"
    and fin: "is_finite (s_total_purchase_value s)"
    using get_portfolio_summary_InrD [OF r] by blast
  have "price_holdings upper yf (get_user_holdings user_id d) [] w = (Inr vs, w')"
    using vs by (simp add: get_holdings_with_prices_def)
  then have views: "list_all2 (\<lambda>(h, p) v. from_holding h p = Inr v) ?P vs"
    using price_holdings_InrD [of upper yf "get_user_holdings user_id d" "[]" w vs w'] by simp
  obtain pvs where cvs: "dec_sum (map v_current_value vs) = Inr (s_total_current_value s)"
    and pvs: "list_all2 (\<lambda>v pv. dec_mul (v_shares v) (v_purchase_price v) = Inr pv) vs pvs"
    and psum: "dec_sum pvs = Inr (s_total_purchase_value s)"
    using sum_holdings_InrD [OF sums] unfolding dec_sum_def by blast
  have pvs': "list_all2 (\<lambda>(h, p) pv. dec_mul (h_shares h) (h_purchase_price h) = Inr pv) ?P pvs"
    using views pvs by (rule list_all2_views_purchase)
  obtain t where t: "s_total_purchase_value s = Finite t"
    using fin by (auto simp add: is_finite_iff)
  have pos': "0 < t \<longrightarrow>
      (\<exists>q. dec_div (s_total_gain_loss s) (s_total_purchase_value s) = Inr q
         \<and> dec_mul q (Finite 100) = Inr (s_total_gain_loss_percent s))"
    using pos by (simp add: t)
  have neg': "t \<le> 0 \<longrightarrow> s_total_gain_loss_percent s = Finite 0"
    using neg by (simp add: t)
  have cnt': "s_holdings_count s = int (length ?P)"
    using cnt views by (simp add: list_all2_lengthD)
  show "\<exists>vs pvs t.
          get_holdings_with_prices upper yf user_id d w = (Inr vs, w')
        \<and> list_all2 (\<lambda>(h, p) v. from_holding h p = Inr v) ?P vs
        \<and> list_all2 (\<lambda>(h, p) pv. dec_mul (h_shares h) (h_purchase_price h) = Inr pv) ?P pvs
        \<and> dec_sum (map v_current_value vs) = Inr (s_total_current_value s)
        \<and> dec_sum pvs = Inr (s_total_purchase_value s)
        \<and> dec_sub (s_total_current_value s) (s_total_purchase_value s)
            = Inr (s_total_gain_loss s)
        \<and> s_total_purchase_value s = Finite t
        \<and> (0 < t \<longrightarrow>
            (\<exists>q. dec_div (s_total_gain_loss s) (s_total_purchase_value s) = Inr q
               \<and> dec_mul q (Finite 100) = Inr (s_total_gain_loss_percent s)))
        \<and> (t \<le> 0 \<longrightarrow> s_total_gain_loss_percent s = Finite 0)
        \<and> s_holdings_count s = int (length ?P)"
    using vs views pvs' cvs psum gl t pos' neg' cnt'
    by (intro exI [of _ vs] exI [of _ pvs] exI [of _ t] conjI)
next
  assume "db_ok d
        \<and> length (get_user_holdings user_id d) \<le> 100000
        \<and> list_all holding_in_range (get_user_holdings user_id d)
        \<and> list_all (\<lambda>(h, r). moderate_quote r)
            (quotes upper yf (get_user_holdings user_id d) w)"
  then show "\<exists>s w'. get_portfolio_summary upper yf user_id d w = (Inr s, w')"
    using get_portfolio_summary_in_range [of d user_id upper yf w] by blast
next
  assume "get_user_holdings user_id d = []"
  then show "get_portfolio_summary upper yf user_id d w =
        (Inr \<lparr>s_total_current_value = Finite 0, s_total_purchase_value = Finite 0,
              s_total_gain_loss = Finite 0, s_total_gain_loss_percent = Finite 0,
              s_holdings_count = 0\<rparr>, w)"
    by (rule get_portfolio_summary_empty)
qed

theorem portfolio_summary_totals_witness:
  "\<exists>s w'. get_portfolio_summary ascii_upper example_yf 1 example_db 0 = (Inr s, w')
     \<and> s_total_current_value s = Finite 1600
     \<and> s_holdings_count s = 1"
proof -
  note T = portfolio_summary_totals
    [where upper = ascii_upper and yf = example_yf and user_id = 1 and d = example_db and w = 0]
  have len: "length (get_user_holdings 1 example_db) \<le> 100000"
    by (simp add: example_holdings_1)
  obtain s w' where r: "get_portfolio_summary ascii_upper example_yf 1 example_db 0 = (Inr s, w')"
    using T example_db_ok len example_in_range_1 example_quotes_in_range_1 by blast
  have P: "priced (quotes ascii_upper example_yf (get_user_holdings 1 example_db) 0) =
     [(\<lparr>h_id = Some 1, h_ticker = ''AAPL'', h_shares = Finite 10, h_purchase_price = Finite 150,
        h_user_id = 1, h_created_at = 2, h_updated_at = 2\<rparr>, Finite 160)]"
    by (simp add: example_quotes_1)
  obtain vs where views: "list_all2 (\<lambda>(h, p) v. from_holding h p = Inr v)
            (priced (quotes ascii_upper example_yf (get_user_holdings 1 example_db) 0)) vs"
    and cvs: "dec_sum (map v_current_value vs) = Inr (s_total_current_value s)"
    and cnt: "s_holdings_count s =
      int (length (priced (quotes ascii_upper example_yf (get_user_holdings 1 example_db) 0)))"
    using T [of s w'] r by blast
  obtain v where v: "vs = [v]"
    and fh: "from_holding \<lparr>h_id = Some 1, h_ticker = ''AAPL'', h_shares = Finite 10,
        h_purchase_price = Finite 150, h_user_id = 1, h_created_at = 2, h_updated_at = 2\<rparr>
        (Finite 160) = Inr v"
    using views unfolding P by (auto simp add: list_all2_Cons1)
  have "v_current_value v = Finite 1600"
    using fh from_holding_example
      [of "\<lparr>h_id = Some 1, h_ticker = ''AAPL'', h_shares = Finite 10,
        h_purchase_price = Finite 150, h_user_id = 1, h_created_at = 2, h_updated_at = 2\<rparr>" 1]
    by auto
  then have "dec_sum (map v_current_value vs) = Inr (Finite 1600)"
    using dec_fix_of_int [of 1600] by (simp add: v dec_sum_single)
  then have "s_total_current_value s = Finite 1600"
    using cvs by simp
  moreover have "s_holdings_count s = 1"
    using cnt by (simp add: P)
  ultimately show ?thesis
    using r by blast
qed

text \<open>
  With the percentage a ratio whenever the total purchase value is not 0, the statement
  fails at a negative total purchase value, which a holding of a negative number of shares
  gives (\<^verbatim>\<open>add_holding\<close> persists the shares as they are given): the percentage of the
  summary is 0, and the difference divided by the total purchase value times 100 is
  6.666666666666666666666666667.
\<close>

theorem portfolio_summary_totals_counterexample:
  "get_portfolio_summary ascii_upper example_yf 3 example_db 0 =
     (Inr \<lparr>s_total_current_value = Finite (- 1600), s_total_purchase_value = Finite (- 1500),
           s_total_gain_loss = Finite (- 100), s_total_gain_loss_percent = Finite 0,
           s_holdings_count = 1\<rparr>, 1)
   \<and> dec_div (Finite (- 100)) (Finite (- 1500)) =
       Inr (Finite (6666666666666666666666666667 / 10 ^ 29))
   \<and> dec_mul (Finite (6666666666666666666666666667 / 10 ^ 29)) (Finite 100) =
       Inr (Finite (6666666666666666666666666667 / 10 ^ 27))"
proof (intro conjI)
  show "get_portfolio_summary ascii_upper example_yf 3 example_db 0 =
     (Inr \<lparr>s_total_current_value = Finite (- 1600), s_total_purchase_value = Finite (- 1500),
           s_total_gain_loss = Finite (- 100), s_total_gain_loss_percent = Finite 0,
           s_holdings_count = 1\<rparr>, 1)"
    by (rule example_summary_3)
  show "dec_div (Finite (- 100)) (Finite (- 1500)) =
       Inr (Finite (6666666666666666666666666667 / 10 ^ 29))"
    using dec_fix_100_1500 by simp
  show "dec_mul (Finite (6666666666666666666666666667 / 10 ^ 29)) (Finite 100) =
       Inr (Finite (6666666666666666666666666667 / 10 ^ 27))"
    by (rule dec_mul_ratio_100)
qed

section \<open>The stored fields of a view\<close>

text \<open>
  C10. For a holding and a price \<open>p\<close>, the view that \<^verbatim>\<open>from_holding\<close> returns carries the
  stored fields as they are: the holding has an assigned id, which is the id of the view;
  ticker (not uppercased again), shares, purchase price, created\_at and updated\_at are
  those of the holding, and the current price is \<open>p\<close>. Such a view is returned for a
  holding with an assigned id whose shares and purchase price are finite numbers of
  moderate size and not negative, at a price that is a finite number of moderate size.
\<close>

theorem from_holding_fields:
  "(from_holding holding p = Inr v \<longrightarrow>
      h_id holding = Some (v_id v)
      \<and> v_ticker v = h_ticker holding
      \<and> v_shares v = h_shares holding
      \<and> v_purchase_price v = h_purchase_price holding
      \<and> v_created_at v = h_created_at holding
      \<and> v_updated_at v = h_updated_at holding
      \<and> v_current_price v = p)
   \<and> (h_id holding = Some i \<and> holding_in_range holding \<and> moderate c \<longrightarrow>
      (\<exists>v. from_holding holding (Finite c) = Inr v
         \<and> v_id v = i
         \<and> v_ticker v = h_ticker holding
         \<and> v_shares v = h_shares holding
         \<and> v_purchase_price v = h_purchase_price holding
         \<and> v_created_at v = h_created_at holding
         \<and> v_updated_at v = h_updated_at holding
         \<and> v_current_price v = Finite c))"
proof (intro conjI impI)
  assume "h_id holding = Some i \<and> holding_in_range holding \<and> moderate c"
  then have i: "h_id holding = Some i" and r: "holding_in_range holding" and c: "moderate c"
    by simp_all
  obtain v where v: "from_holding holding (Finite c) = Inr v"
    using from_holding_in_range [OF i r c] by blast
  have "v_id v = i"
    using from_holding_InrD(1) [OF v] i by simp
  then show "\<exists>v. from_holding holding (Finite c) = Inr v
         \<and> v_id v = i
         \<and> v_ticker v = h_ticker holding
         \<and> v_shares v = h_shares holding
         \<and> v_purchase_price v = h_purchase_price holding
         \<and> v_created_at v = h_created_at holding
         \<and> v_updated_at v = h_updated_at holding
         \<and> v_current_price v = Finite c"
    using v from_holding_InrD(2-7) [OF v] by blast
qed (simp_all add: from_holding_InrD)

theorem from_holding_fields_witness:
  "\<exists>v. from_holding
          \<lparr>h_id = Some 7, h_ticker = ''aapl'', h_shares = Finite 10,
           h_purchase_price = Finite 150, h_user_id = 1, h_created_at = 3,
           h_updated_at = 4\<rparr> (Finite 160) = Inr v
     \<and> v_id v = 7 \<and> v_ticker v = ''aapl'' \<and> v_shares v = Finite 10
     \<and> v_purchase_price v = Finite 150 \<and> v_created_at v = 3 \<and> v_updated_at v = 4
     \<and> v_current_price v = Finite 160"
proof -
  have m: "moderate 10" "moderate 150" "moderate 160"
    by (rule moderate_small, simp, simp)+
  then have r: "holding_in_range
      \<lparr>h_id = Some 7, h_ticker = ''aapl'', h_shares = Finite 10,
       h_purchase_price = Finite 150, h_user_id = 1, h_created_at = 3, h_updated_at = 4\<rparr>"
    by (simp add: holding_in_range_def)
  show ?thesis
    using from_holding_fields
      [of "\<lparr>h_id = Some 7, h_ticker = ''aapl'', h_shares = Finite 10,
            h_purchase_price = Finite 150, h_user_id = 1, h_created_at = 3,
            h_updated_at = 4\<rparr>" _ _ 7 160] r m(3)
    by simp
qed

end
